theory Spec2Isabelle
  imports Main "HOL-Library.Sublist" "HOL-Library.Log_Nat"
begin

section \<open>Python strings\<close>

text \<open>
  A goal is a Python \<^verbatim>\<open>str\<close>. It is modelled as a \<^typ>\<open>string\<close> whose characters are
  the code points below 256; \<^term>\<open>of_char c\<close> is the code point. On these code points
  \<^verbatim>\<open>\d\<close> matches exactly the ten ASCII digits, \<^verbatim>\<open>\s\<close> and \<^verbatim>\<open>str.isspace\<close> accept the
  same twelve characters, and \<^verbatim>\<open>str.lower\<close> maps one character to one character.
\<close>

definition is_digit :: "char \<Rightarrow> bool" where
  "is_digit c = (let n = (of_char c :: nat) in 48 \<le> n \<and> n \<le> 57)"

definition is_space :: "char \<Rightarrow> bool" where
  "is_space c = (let n = (of_char c :: nat) in
     (9 \<le> n \<and> n \<le> 13) \<or> (28 \<le> n \<and> n \<le> 32) \<or> n = 133 \<or> n = 160)"

definition lower_char :: "char \<Rightarrow> char" where
  "lower_char c = (let n = (of_char c :: nat) in
     if (65 \<le> n \<and> n \<le> 90) \<or> (192 \<le> n \<and> n \<le> 222 \<and> n \<noteq> 215)
     then char_of (n + 32) else c)"

text \<open>\<^verbatim>\<open>goal.lower()\<close>\<close>

definition lower :: "string \<Rightarrow> string" where
  "lower s = map lower_char s"

definition digit_value :: "char \<Rightarrow> int" where
  "digit_value c = int (of_char c) - 48"

text \<open>The exceptions the modelled code can raise.\<close>

datatype py_error = OverflowError | ZeroDivisionError | ValueError

text \<open>The number a string of decimal digits denotes.\<close>

definition decimal_value :: "string \<Rightarrow> int" where
  "decimal_value x = foldl (\<lambda>a c. 10 * a + digit_value c) 0 x"

text \<open>
  \<^verbatim>\<open>int(x)\<close> on a non-empty string of decimal digits, which is what group 1 of the
  patterns below always is. Python integers are unbounded, but \<^verbatim>\<open>int\<close> refuses a string of
  more than 4300 digits, leading zeros counted, with a \<^verbatim>\<open>ValueError\<close>.
\<close>

definition py_int :: "string \<Rightarrow> py_error + int" where
  "py_int x = (if 4300 < length x then Inl ValueError else Inr (decimal_value x))"

text \<open>\<^verbatim>\<open>word in goal_lower\<close>: the substring test.\<close>

fun contains :: "string \<Rightarrow> string \<Rightarrow> bool" where
  "contains w [] = (w = [])"
| "contains w (c # cs) = (prefix w (c # cs) \<or> contains w cs)"

text \<open>\<^verbatim>\<open>s.strip()\<close> removes the white space at both ends.\<close>

definition strip :: "string \<Rightarrow> string" where
  "strip s = rev (dropWhile is_space (rev (dropWhile is_space s)))"

text \<open>\<^verbatim>\<open>s.split()\<close> cuts at runs of white space and yields no empty word.\<close>

fun split_acc :: "string \<Rightarrow> string \<Rightarrow> string list" where
  "split_acc w [] = (if w = [] then [] else [w])"
| "split_acc w (c # cs) =
     (if is_space c then (if w = [] then split_acc [] cs else w # split_acc [] cs)
      else split_acc (w @ [c]) cs)"

definition split :: "string \<Rightarrow> string list" where
  "split s = split_acc [] s"

section \<open>The timeframe extractor\<close>

text \<open>
  \<^verbatim>\<open>re.match\<close> of the pattern \<^verbatim>\<open>(\d+)\s*UNITs?\<close> at the head of a string, returning group 1.
  The three patterns of \<^verbatim>\<open>extract_timeframe\<close> differ in the unit word only. The unit
  begins with a letter, so the digits and the white space are matched greedily with
  nothing to gain from backtracking, and the optional final \<^verbatim>\<open>s\<close> has no part in
  whether the pattern matches or in group 1.
\<close>

definition match_here :: "string \<Rightarrow> string \<Rightarrow> string option" where
  "match_here unit s =
     (let ds = takeWhile is_digit s;
          rest = dropWhile is_space (dropWhile is_digit s)
      in if ds \<noteq> [] \<and> prefix unit rest then Some ds else None)"

text \<open>\<^verbatim>\<open>re.search\<close>: the match at the leftmost position that has one.\<close>

fun re_search :: "string \<Rightarrow> string \<Rightarrow> string option" where
  "re_search unit [] = None"
| "re_search unit (c # cs) =
     (case match_here unit (c # cs) of
        Some ds \<Rightarrow> Some ds
      | None \<Rightarrow> re_search unit cs)"

text \<open>
  The patterns with their converters \<^verbatim>\<open>lambda x: int(x) * 7\<close>, \<^verbatim>\<open>lambda x: int(x)\<close> and
  \<^verbatim>\<open>lambda x: int(x) * 30\<close>.
\<close>

definition time_patterns :: "(string \<times> (string \<Rightarrow> py_error + int)) list" where
  "time_patterns =
     [(''week'', \<lambda>x. case py_int x of Inl e \<Rightarrow> Inl e | Inr n \<Rightarrow> Inr (n * 7)),
      (''day'', \<lambda>x. py_int x),
      (''month'', \<lambda>x. case py_int x of Inl e \<Rightarrow> Inl e | Inr n \<Rightarrow> Inr (n * 30))]"

text \<open>
  The loop over \<^verbatim>\<open>time_patterns\<close>, returning at the first pattern that matches; the
  converter may raise.
\<close>

fun first_pattern ::
  "(string \<times> (string \<Rightarrow> py_error + int)) list \<Rightarrow> string \<Rightarrow> (py_error + int) option" where
  "first_pattern [] s = None"
| "first_pattern ((pattern, converter) # ps) s =
     (case re_search pattern s of
        Some g \<Rightarrow> Some (converter g)
      | None \<Rightarrow> first_pattern ps s)"

definition extract_timeframe :: "string \<Rightarrow> py_error + int" where
  "extract_timeframe goal =
     (case first_pattern time_patterns (lower goal) of
        Some days \<Rightarrow> days
      | None \<Rightarrow> Inr 14)"

section \<open>Dates\<close>

text \<open>
  A date is its proleptic Gregorian ordinal, as \<^verbatim>\<open>date.toordinal\<close> gives it: day 1 is
  0001-01-01 and day 3652059 is 9999-12-31, the last one \<^verbatim>\<open>datetime\<close> can hold. Adding
  whole days to a \<^verbatim>\<open>datetime\<close> leaves its time of day alone, and
  \<^verbatim>\<open>strftime("%Y-%m-%d")\<close> prints the date only, so a printed date is represented by
  the ordinal it prints.
\<close>

definition MAXORDINAL :: int where
  "MAXORDINAL = 3652059"

text \<open>\<^verbatim>\<open>timedelta(days=n)\<close> refuses more than 999999999 days.\<close>

definition timedelta :: "int \<Rightarrow> py_error + int" where
  "timedelta n = (if 999999999 < \<bar>n\<bar> then Inl OverflowError else Inr n)"

text \<open>\<^verbatim>\<open>d + timedelta(days=n)\<close> raises when the result leaves the range of dates.\<close>

definition add_days :: "int \<Rightarrow> int \<Rightarrow> py_error + int" where
  "add_days d n =
     (case timedelta n of
        Inl e \<Rightarrow> Inl e
      | Inr k \<Rightarrow> if 0 < d + k \<and> d + k \<le> MAXORDINAL then Inr (d + k) else Inl OverflowError)"

section \<open>Floating point\<close>

text \<open>
  A non-negative finite double is a pair \<open>(m, e)\<close> standing for \<open>m * 2 ^ e\<close>. Every
  operation computes its exact result and rounds it once to 53 significant bits, ties to
  even, as IEEE 754 binary64 arithmetic does. Exponent overflow and subnormal numbers are
  left out: the non-zero values met here lie between \<open>2 ^ - 3\<close> and \<open>2 ^ 22\<close>, since the
  plan generator multiplies and divides only after \<^verbatim>\<open>end_date\<close> was computed without an
  \<^verbatim>\<open>OverflowError\<close>, which bounds \<^verbatim>\<open>total_days\<close> by \<^term>\<open>MAXORDINAL\<close>.
\<close>

type_synonym float = "int \<times> int"

definition round53 :: "int \<times> int \<Rightarrow> float" where
  "round53 x = (case x of (m, e) \<Rightarrow>
     if m < 2 ^ 53 then (m, e)
     else let k = nat (bitlen m - 53);
              q = m div 2 ^ k;
              r = m mod 2 ^ k
          in (if 2 ^ k < 2 * r \<or> (2 * r = 2 ^ k \<and> odd q) then q + 1 else q, e + int k))"

text \<open>The conversion of an \<^verbatim>\<open>int\<close> operand to \<^verbatim>\<open>float\<close>.\<close>

definition float_of_int :: "int \<Rightarrow> float" where
  "float_of_int n = round53 (n, 0)"

text \<open>\<^verbatim>\<open>a * b\<close> on two floats.\<close>

definition float_mul :: "float \<Rightarrow> float \<Rightarrow> float" where
  "float_mul a b = round53 (fst a * fst b, snd a + snd b)"

text \<open>
  \<^verbatim>\<open>a / b\<close> on two non-negative \<^verbatim>\<open>int\<close>s: the correctly rounded quotient. The quotient
  is computed to at least 55 bits with a sticky bit for the remainder and then rounded.
\<close>

definition true_div :: "int \<Rightarrow> int \<Rightarrow> py_error + float" where
  "true_div a b =
     (if b = 0 then Inl ZeroDivisionError
      else if a = 0 then Inr (0, 0)
      else let d = 54 + bitlen b - bitlen a;
               num = (if 0 \<le> d then a * 2 ^ nat d else a);
               den = (if 0 \<le> d then b else b * 2 ^ nat (- d));
               q = num div den;
               sticky = (if num mod den = 0 then 0 else 1)
           in Inr (round53 (2 * q + sticky, - d - 1)))"

text \<open>\<^verbatim>\<open>int(x)\<close> on a non-negative float: truncation.\<close>

definition int_of_float :: "float \<Rightarrow> int" where
  "int_of_float x = (case x of (m, e) \<Rightarrow>
     if 0 \<le> e then m * 2 ^ nat e else m div 2 ^ nat (- e))"

text \<open>
  A decimal literal such as \<^verbatim>\<open>0.85\<close> denotes the double nearest to \<open>85 / 100\<close>, which is
  what the correctly rounded division of 85 by 100 yields.
\<close>

definition float_literal :: "int \<Rightarrow> int \<Rightarrow> float" where
  "float_literal n d = (case true_div n d of Inr x \<Rightarrow> x | Inl e \<Rightarrow> (0, 0))"

text \<open>\<^verbatim>\<open>int(n * x)\<close> for an \<^verbatim>\<open>int\<close> \<open>n\<close> and a float \<open>x\<close>.\<close>

definition int_times :: "int \<Rightarrow> float \<Rightarrow> int" where
  "int_times n x = int_of_float (float_mul (float_of_int n) x)"

section \<open>Plans\<close>

record task =
  task_id :: int
  title :: string
  description :: string
  estimated_hours :: int
  dependencies :: "int list"
  deadline :: int
  priority :: string
  category :: string

record milestone =
  name :: string
  date :: int
  tasks_completed :: "int list"

record timeline =
  start_date :: int
  end_date :: int
  milestones :: "milestone list"

record plan =
  plan_goal :: string
  estimated_duration :: string
  tasks :: "task list"
  timeline :: timeline

text \<open>\<^verbatim>\<open>str(n)\<close> for the f-string of \<^verbatim>\<open>estimated_duration\<close>.\<close>

fun str_nat :: "nat \<Rightarrow> string" where
  "str_nat n =
     (if n < 10 then [char_of (48 + n)]
      else str_nat (n div 10) @ [char_of (48 + n mod 10)])"

definition str_int :: "int \<Rightarrow> string" where
  "str_int i = (if i < 0 then CHR ''-'' # str_nat (nat (- i)) else str_nat (nat i))"

text \<open>
  One task dictionary. Its deadline is the only entry whose evaluation can raise; the
  exception, if any, is the value of the whole literal.
\<close>

definition new_task ::
  "int \<Rightarrow> string \<Rightarrow> string \<Rightarrow> int \<Rightarrow> int list \<Rightarrow> py_error + int \<Rightarrow> string \<Rightarrow> string
     \<Rightarrow> py_error + task" where
  "new_task i t d h deps dl p c =
     (case dl of
        Inl e \<Rightarrow> Inl e
      | Inr day \<Rightarrow>
          Inr \<lparr>task_id = i, title = t, description = d, estimated_hours = h,
               dependencies = deps, deadline = day, priority = p, category = c\<rparr>)"

text \<open>A list literal evaluates its entries from left to right; the first exception wins.\<close>

fun sequence :: "('e + 'a) list \<Rightarrow> 'e + 'a list" where
  "sequence [] = Inr []"
| "sequence (x # xs) =
     (case x of
        Inl e \<Rightarrow> Inl e
      | Inr v \<Rightarrow> (case sequence xs of Inl e \<Rightarrow> Inl e | Inr vs \<Rightarrow> Inr (v # vs)))"

section \<open>The pattern classifier\<close>

text \<open>\<^verbatim>\<open>any(word in goal_lower for word in words)\<close>\<close>

definition any_word_in :: "string list \<Rightarrow> string \<Rightarrow> bool" where
  "any_word_in words s = list_ex (\<lambda>word. contains word s) words"

datatype family = Product | Event | Learning | Research | Generic

definition product_words :: "string list" where
  "product_words = [''product'', ''launch'', ''app'', ''software'', ''platform'', ''mobile'']"

definition event_words :: "string list" where
  "event_words = [''event'', ''meeting'', ''conference'', ''workshop'', ''party'', ''gathering'']"

definition learning_words :: "string list" where
  "learning_words = [''learn'', ''study'', ''course'', ''training'', ''skill'', ''master'']"

definition research_words :: "string list" where
  "research_words = [''research'', ''paper'', ''thesis'', ''study'', ''analysis'', ''report'']"

text \<open>
  The tests of the \<^verbatim>\<open>if\<close>/\<^verbatim>\<open>elif\<close> chain of \<^verbatim>\<open>fallback_plan_generation\<close>, in its order.
\<close>

definition classify :: "string \<Rightarrow> family" where
  "classify goal_lower =
     (if any_word_in product_words goal_lower then Product
      else if any_word_in event_words goal_lower then Event
      else if any_word_in learning_words goal_lower then Learning
      else if any_word_in research_words goal_lower then Research
      else Generic)"

section \<open>The plan synthesizer\<close>

definition product_tasks :: "int \<Rightarrow> int \<Rightarrow> int \<Rightarrow> py_error + task list" where
  "product_tasks start finish total_days = sequence
     [new_task 1
        (''Market Research & User Analysis'')
        (''Conduct comprehensive market research to identify target audience, analyze competitors, and validate product-market fit. Gather user requirements and pain points.'')
        16 []
        (add_days start (max 1 (total_days div 7)))
        ''High'' ''Research'',
      new_task 2
        (''Product Requirements Documentation'')
        (''Create detailed product requirements document (PRD) including features, user stories, acceptance criteria, and technical specifications. Define MVP scope.'')
        20 [1]
        (add_days start (max 2 (total_days div 5)))
        ''High'' ''Planning'',
      new_task 3
        (''UI/UX Design & Prototyping'')
        (''Design user interface mockups, create wireframes, develop interactive prototypes, and establish design system. Include user flow diagrams and navigation structure.'')
        32 [2]
        (add_days start (max 4 (total_days div 3)))
        ''High'' ''Design'',
      new_task 4
        (''Backend Development & API Implementation'')
        (''Develop server-side logic, create RESTful APIs, implement database schema, set up authentication, and configure cloud infrastructure. Include error handling and logging.'')
        40 [2]
        (add_days start (max 7 (int_times total_days (float_literal 6 10))))
        ''High'' ''Development'',
      new_task 5
        (''Frontend Development & Integration'')
        (''Build mobile app interface, implement screens from designs, integrate with backend APIs, handle state management, and optimize performance.'')
        48 [3, 4]
        (add_days start (max 10 (int_times total_days (float_literal 7 10))))
        ''High'' ''Development'',
      new_task 6
        (''Testing & Quality Assurance'')
        (''Execute comprehensive testing including unit tests, integration tests, UI tests, performance testing, and security audits. Fix identified bugs and optimize code.'')
        24 [5]
        (add_days start (max 13 (int_times total_days (float_literal 85 100))))
        ''High'' ''Testing'',
      new_task 7
        (''App Store Preparation & Submission'')
        (''Prepare app store listings, create screenshots and promotional materials, write descriptions, configure store settings, and submit for review.'')
        12 [6]
        (add_days start (max 15 (int_times total_days (float_literal 9 10))))
        ''Medium'' ''Publishing'',
      new_task 8
        (''Marketing Campaign & Launch'')
        (''Execute marketing strategy, coordinate social media campaigns, send press releases, engage with early users, and monitor initial user feedback and analytics.'')
        16 [7]
        (Inr finish)
        ''High'' ''Marketing'']"

definition event_tasks :: "int \<Rightarrow> int \<Rightarrow> int \<Rightarrow> py_error + task list" where
  "event_tasks start finish total_days = sequence
     [new_task 1
        (''Event Concept & Planning'')
        (''Define event objectives, determine target audience, establish theme and format, create preliminary budget, and develop overall event strategy.'')
        8 []
        (add_days start (max 1 (total_days div 6)))
        ''High'' ''Planning'',
      new_task 2
        (''Venue Selection & Booking'')
        (''Research suitable venues, conduct site visits, evaluate capacity and amenities, negotiate contracts, and secure venue booking with required deposits.'')
        12 [1]
        (add_days start (max 2 (total_days div 4)))
        ''High'' ''Logistics'',
      new_task 3
        (''Vendor Coordination & Services'')
        (''Source and book catering services, arrange AV equipment, hire photographers, coordinate with decorators, and confirm all service provider contracts.'')
        16 [2]
        (add_days start (max 4 (total_days div 2)))
        ''High'' ''Logistics'',
      new_task 4
        (''Guest Management & Invitations'')
        (''Compile guest list, design and send invitations (digital/physical), track RSVPs, manage dietary requirements, and arrange seating plan.'')
        10 [1]
        (add_days start (max 3 (int_times total_days (float_literal 4 10))))
        ''Medium'' ''Communications'',
      new_task 5
        (''Event Program & Schedule'')
        (''Create detailed event timeline, coordinate speakers or performers, prepare scripts or run sheets, and conduct final walkthroughs with all stakeholders.'')
        8 [2, 3]
        (add_days start (max 6 (int_times total_days (float_literal 75 100))))
        ''High'' ''Planning'',
      new_task 6
        (''Event Execution & Management'')
        (''Oversee event setup, coordinate all vendors and staff, manage timeline execution, handle real-time issues, and ensure smooth event flow from start to finish.'')
        12 [3, 4, 5]
        (Inr finish)
        ''High'' ''Execution'']"

definition learning_tasks :: "string \<Rightarrow> int \<Rightarrow> int \<Rightarrow> int \<Rightarrow> py_error + task list" where
  "learning_tasks subject start finish total_days = sequence
     [new_task 1
        (''Foundation & Environment Setup for ''
          @ subject)
        (''Install necessary software and tools, set up development environment, learn basic syntax and core concepts of ''
          @ subject
          @ '', and complete beginner tutorials.'')
        12 []
        (add_days start (max 2 (total_days div 5)))
        ''High'' ''Learning'',
      new_task 2
        (''Intermediate Concepts & Hands-on Practice'')
        (''Study intermediate ''
          @ subject
          @ '' concepts through structured courses, complete coding exercises and challenges, build small practice projects, and participate in coding communities.'')
        24 [1]
        (add_days start (max 6 (int_times total_days (float_literal 6 10))))
        ''High'' ''Learning'',
      new_task 3
        (''Advanced Topics & Real-world Applications'')
        (''Explore advanced ''
          @ subject
          @ '' topics including best practices, design patterns, optimization techniques. Work on complex problems and study real-world code examples.'')
        20 [2]
        (add_days start (max 10 (int_times total_days (float_literal 8 10))))
        ''Medium'' ''Practice'',
      new_task 4
        (''Capstone Project & Portfolio Development'')
        (''Design and build a comprehensive ''
          @ subject
          @ '' project demonstrating learned skills. Document code, create README, deploy project, and add to professional portfolio.'')
        16 [3]
        (Inr finish)
        ''High'' ''Portfolio'']"

definition research_tasks :: "int \<Rightarrow> int \<Rightarrow> int \<Rightarrow> py_error + task list" where
  "research_tasks start finish total_days = sequence
     [new_task 1
        (''Topic Selection & Literature Review'')
        (''Define research question, conduct comprehensive literature review, identify gaps in existing research, and develop theoretical framework. Compile annotated bibliography.'')
        20 []
        (add_days start (max 2 (total_days div 4)))
        ''High'' ''Research'',
      new_task 2
        (''Research Methodology Design'')
        (''Develop research methodology, design data collection instruments, establish sampling strategy, and prepare ethics approval documentation if required.'')
        12 [1]
        (add_days start (max 4 (total_days div 3)))
        ''High'' ''Planning'',
      new_task 3
        (''Data Collection & Analysis'')
        (''Execute data collection according to methodology, organize and clean data, perform statistical analysis, generate visualizations, and interpret results.'')
        24 [2]
        (add_days start (max 8 (int_times total_days (float_literal 65 100))))
        ''High'' ''Research'',
      new_task 4
        (''Writing & Documentation'')
        (''Write research paper sections (introduction, methodology, results, discussion, conclusion), create tables and figures, ensure proper citations, and format according to requirements.'')
        20 [3]
        (add_days start (max 11 (int_times total_days (float_literal 85 100))))
        ''High'' ''Writing'',
      new_task 5
        (''Review, Revision & Submission'')
        (''Proofread paper, incorporate peer feedback, verify citations and references, check formatting compliance, and submit final version before deadline.'')
        12 [4]
        (Inr finish)
        ''High'' ''Finalization'']"

text \<open>
  The subject of a learning goal: the first word of the goal whose lower-cased form is
  in the vocabulary, capitalised. Such a word consists of ASCII letters, so
  \<^verbatim>\<open>capitalize\<close> is modelled on those.
\<close>

definition upper_char :: "char \<Rightarrow> char" where
  "upper_char c = (let n = (of_char c :: nat) in
     if 97 \<le> n \<and> n \<le> 122 then char_of (n - 32) else c)"

definition capitalize :: "string \<Rightarrow> string" where
  "capitalize w = (case w of [] \<Rightarrow> [] | c # cs \<Rightarrow> upper_char c # lower cs)"

definition subject_words :: "string list" where
  "subject_words = [''python'', ''java'', ''javascript'', ''programming'', ''coding'', ''data'', ''science'', ''machine'', ''learning'']"

fun find_subject :: "string list \<Rightarrow> string" where
  "find_subject [] = ''the subject''"
| "find_subject (word # ws) =
     (if lower word \<in> set subject_words then capitalize word else find_subject ws)"

text \<open>
  The generic phases: name, description and category. Each description ends in the
  placeholder \<^verbatim>\<open>{goal}\<close>, so \<^verbatim>\<open>format(goal=goal)\<close> appends the goal to the text kept here.
\<close>

definition phase_templates :: "(string \<times> string \<times> string) list" where
  "phase_templates =
     [(''Planning & Requirements'',
       ''Define objectives, gather requirements, identify stakeholders, create project plan, and establish success criteria for: '',
       ''Planning''),
      (''Research & Preparation'',
       ''Conduct necessary research, gather resources, identify potential challenges, and prepare detailed approach for executing: '',
       ''Research''),
      (''Implementation Phase 1'',
       ''Begin core execution activities, establish foundations, implement initial components, and validate approach for: '',
       ''Development''),
      (''Implementation Phase 2'',
       ''Continue development work, integrate components, address identified issues, and complete majority of work for: '',
       ''Development''),
      (''Testing & Quality Assurance'',
       ''Conduct thorough testing, verify all requirements are met, identify and fix issues, and ensure quality standards for: '',
       ''Testing''),
      (''Finalization & Documentation'',
       ''Complete remaining tasks, create necessary documentation, prepare deliverables, and finalize all aspects of: '',
       ''Finalization''),
      (''Delivery & Completion'',
       ''Deliver final output, gather feedback, ensure stakeholder satisfaction, and officially close project for: '',
       ''Completion'')]"

definition priorities :: "string list" where
  "priorities = [''High'', ''High'', ''Medium'', ''High'', ''High'', ''Medium'', ''High'']"

text \<open>
  The body of the loop \<^verbatim>\<open>for i in range(num_tasks)\<close>. The index \<^verbatim>\<open>min(i, 6)\<close> lies within
  both seven-entry lists.
\<close>

definition generic_task :: "string \<Rightarrow> int \<Rightarrow> float \<Rightarrow> int \<Rightarrow> py_error + task" where
  "generic_task goal start task_duration i =
     (let template = phase_templates ! nat (min i 6);
          task_date = add_days start (int_times i task_duration)
      in new_task (i + 1)
           (fst template)
           (fst (snd template) @ goal)
           (10 + (i mod 3) * 6)
           (if 0 < i then [i] else [])
           task_date
           (priorities ! nat (min i 6))
           (snd (snd template)))"

definition generic_tasks :: "string \<Rightarrow> int \<Rightarrow> int \<Rightarrow> py_error + task list" where
  "generic_tasks goal start total_days =
     (let num_tasks = max 4 (min 7 (total_days div 3)) in
      case true_div total_days num_tasks of
        Inl e \<Rightarrow> Inl e
      | Inr task_duration \<Rightarrow>
          sequence (map (generic_task goal start task_duration) [0..num_tasks - 1]))"

section \<open>The milestone synthesizer\<close>

definition create_milestones :: "task list \<Rightarrow> int \<Rightarrow> int \<Rightarrow> int \<Rightarrow> py_error + milestone list" where
  "create_milestones ts start finish total_days =
     (let kickoff = \<lparr>name = ''Project Kickoff & Planning Complete'', date = start,
                     tasks_completed = []\<rparr>;
          completion = \<lparr>name = ''Project Completion & Delivery'', date = finish,
                        tasks_completed = map task_id ts\<rparr>
      in if 3 < length ts then
           (let third_point = length ts div 3;
                two_third_point = (length ts * 2) div 3
            in case add_days start (total_days div 3) of
                 Inl e \<Rightarrow> Inl e
               | Inr d1 \<Rightarrow>
                   (case add_days start ((total_days * 2) div 3) of
                      Inl e \<Rightarrow> Inl e
                    | Inr d2 \<Rightarrow>
                        Inr [kickoff,
                             \<lparr>name = ''Initial Phase Complete'', date = d1,
                              tasks_completed = map task_id (take third_point ts)\<rparr>,
                             \<lparr>name = ''Development Phase Complete'', date = d2,
                              tasks_completed = map task_id (take two_third_point ts)\<rparr>,
                             completion]))
         else Inr [kickoff, completion])"

section \<open>The rule-based generator\<close>

text \<open>
  \<^verbatim>\<open>fallback_plan_generation\<close>; \<open>now\<close> is the date \<^verbatim>\<open>datetime.now()\<close> returns.
\<close>

definition select_tasks :: "string \<Rightarrow> int \<Rightarrow> int \<Rightarrow> int \<Rightarrow> py_error + task list" where
  "select_tasks goal start finish total_days =
     (case classify (lower goal) of
        Product \<Rightarrow> product_tasks start finish total_days
      | Event \<Rightarrow> event_tasks start finish total_days
      | Learning \<Rightarrow> learning_tasks (find_subject (split goal)) start finish total_days
      | Research \<Rightarrow> research_tasks start finish total_days
      | Generic \<Rightarrow> generic_tasks goal start total_days)"

definition fallback_plan_generation :: "int \<Rightarrow> string \<Rightarrow> py_error + plan" where
  "fallback_plan_generation now goal =
     (case extract_timeframe goal of
        Inl e \<Rightarrow> Inl e
      | Inr total_days \<Rightarrow>
          (let start = now
           in case add_days start total_days of
                Inl e \<Rightarrow> Inl e
              | Inr finish \<Rightarrow>
                  (case select_tasks goal start finish total_days of
                     Inl e \<Rightarrow> Inl e
                   | Inr ts \<Rightarrow>
                       (case create_milestones ts start finish total_days of
                          Inl e \<Rightarrow> Inl e
                        | Inr ms \<Rightarrow>
                            Inr \<lparr>plan_goal = goal,
                                 estimated_duration = str_int total_days @ '' days'',
                                 tasks = ts,
                                 timeline = \<lparr>start_date = start, end_date = finish,
                                             milestones = ms\<rparr>\<rparr>))))"

section \<open>The LLM adapter\<close>

text \<open>
  What the one HTTP request of \<^verbatim>\<open>generate_with_ollama\<close> can come to: \<^verbatim>\<open>post\<close> raises (no
  connection, or the 60 second timeout), or a response arrives with a status code. The
  text of a response is \<^verbatim>\<open>response.json().get('response', '')\<close>; it is \<open>None\<close> when
  reading it raises, which happens when the body is not a JSON object or the entry is not
  a string.
\<close>

datatype http_result = ConnectionError | Response int "string option"

datatype adapter_error = RequestError | BodyError | Raised py_error

text \<open>
  \<^verbatim>\<open>generate_task_plan\<close> returns either the object parsed from the LLM's answer or a
  plan of the rule-based generator. The type \<open>'j\<close> is that of parsed JSON values.
\<close>

datatype 'j plan_result = LLMPlan 'j | RulePlan plan

text \<open>\<^verbatim>\<open>s.find(c)\<close> and \<^verbatim>\<open>s.rfind(c)\<close>: the first and the last index of \<open>c\<close>, or \<open>-1\<close>.\<close>

fun py_find :: "string \<Rightarrow> char \<Rightarrow> int" where
  "py_find [] c = - 1"
| "py_find (x # xs) c =
     (if x = c then 0 else (let r = py_find xs c in if r < 0 then - 1 else r + 1))"

definition py_rfind :: "string \<Rightarrow> char \<Rightarrow> int" where
  "py_rfind s c = (let r = py_find (rev s) c in if r < 0 then - 1 else int (length s) - 1 - r)"

text \<open>\<^verbatim>\<open>s[a:b]\<close> for \<open>0 \<le> a\<close> and \<open>0 \<le> b\<close>.\<close>

definition slice :: "string \<Rightarrow> int \<Rightarrow> int \<Rightarrow> string" where
  "slice s a b = take (nat b - nat a) (drop (nat a) s)"

definition fallback_result :: "int \<Rightarrow> string \<Rightarrow> py_error + 'j plan_result" where
  "fallback_result now goal = map_sum id RulePlan (fallback_plan_generation now goal)"

text \<open>
  \<^verbatim>\<open>generate_with_ollama\<close>. \<open>loads\<close> is \<^verbatim>\<open>json.loads\<close>, with \<open>None\<close> for a
  \<^verbatim>\<open>JSONDecodeError\<close>; \<open>server n\<close> is the outcome of the \<open>n\<close>-th request made to the LLM
  server, and the number of requests made so far is passed through. The body of the outer
  \<^verbatim>\<open>try\<close> is \<open>attempt\<close>; an exception raised in it, also by a fallback call inside it, is
  caught by \<^verbatim>\<open>except Exception\<close>, which calls the rule-based generator.
\<close>

definition generate_with_ollama ::
  "(string \<Rightarrow> 'j option) \<Rightarrow> (nat \<Rightarrow> http_result) \<Rightarrow> int \<Rightarrow> nat \<Rightarrow> string
     \<Rightarrow> (py_error + 'j plan_result) \<times> nat" where
  "generate_with_ollama loads server now n goal =
     (let inner = (\<lambda>r. case r of Inl e \<Rightarrow> Inl (Raised e) | Inr p \<Rightarrow> Inr p);
          attempt =
            (case server n of
               ConnectionError \<Rightarrow> Inl RequestError
             | Response status_code body \<Rightarrow>
                 if status_code = 200 then
                   (case body of
                      None \<Rightarrow> Inl BodyError
                    | Some llm_response \<Rightarrow>
                        (let json_start = py_find llm_response CHR ''{'';
                             json_end = py_rfind llm_response CHR ''}'' + 1
                         in if 0 \<le> json_start \<and> json_start < json_end then
                              (case loads (slice llm_response json_start json_end) of
                                 Some plan \<Rightarrow> Inr (LLMPlan plan)
                               | None \<Rightarrow> inner (fallback_result now goal))
                            else inner (fallback_result now goal)))
                 else inner (fallback_result now goal))
      in (case attempt of
            Inl e \<Rightarrow> fallback_result now goal
          | Inr p \<Rightarrow> Inr p,
          n + 1))"

definition generate_task_plan ::
  "(string \<Rightarrow> 'j option) \<Rightarrow> (nat \<Rightarrow> http_result) \<Rightarrow> int \<Rightarrow> string \<Rightarrow> nat \<Rightarrow> string
     \<Rightarrow> (py_error + 'j plan_result) \<times> nat" where
  "generate_task_plan loads server now method n goal =
     (if method = ''ollama'' then generate_with_ollama loads server now n goal
      else (fallback_result now goal, n))"

section \<open>The create-plan operation\<close>

text \<open>
  The planner and its table \<^verbatim>\<open>task_plans\<close>: the rows in insertion order, each a goal, a
  plan and the method; the row at position \<open>k\<close> has id \<open>k + 1\<close>. \<open>requests\<close> counts the
  requests made to the LLM server. Failures of the database are not modelled.
\<close>

record 'j planner =
  llm_method :: string
  task_plans :: "(string \<times> 'j plan_result \<times> string) list"
  requests :: nat

text \<open>\<^verbatim>\<open>save_plan\<close> inserts a row and returns its id.\<close>

definition save_plan :: "'j planner \<Rightarrow> string \<Rightarrow> 'j plan_result \<Rightarrow> int \<times> 'j planner" where
  "save_plan st goal p =
     (int (length (task_plans st)) + 1,
      st\<lparr>task_plans := task_plans st @ [(goal, p, llm_method st)]\<rparr>)"

text \<open>
  The JSON body of a request, as far as \<^verbatim>\<open>create_plan\<close> reads it: not a dictionary, or
  a dictionary whose \<^verbatim>\<open>goal\<close> entry is absent, a string, or something else.
\<close>

datatype goal_entry = Absent | Text string | NotText

datatype request_body = NotObject | Object goal_entry

datatype 'j response =
  Created "'j plan_result" int string
| BadRequest string
| ServerError

definition create_plan ::
  "(string \<Rightarrow> 'j option) \<Rightarrow> (nat \<Rightarrow> http_result) \<Rightarrow> int \<Rightarrow> 'j planner \<Rightarrow> request_body
     \<Rightarrow> 'j response \<times> 'j planner" where
  "create_plan loads server now st data =
     (case data of
        NotObject \<Rightarrow> (ServerError, st)
      | Object entry \<Rightarrow>
          (case entry of
             NotText \<Rightarrow> (ServerError, st)
           | _ \<Rightarrow>
               (let goal = strip (case entry of Text s \<Rightarrow> s | _ \<Rightarrow> [])
                in if goal = [] then (BadRequest ''Goal is required'', st)
                   else
                     (case generate_task_plan loads server now (llm_method st) (requests st) goal of
                        (Inl e, n) \<Rightarrow> (ServerError, st\<lparr>requests := n\<rparr>)
                      | (Inr p, n) \<Rightarrow>
                          (case save_plan (st\<lparr>requests := n\<rparr>) goal p of
                             (plan_id, st') \<Rightarrow> (Created p plan_id (llm_method st), st'))))))"

section \<open>Notions the properties are stated with\<close>

text \<open>
  An occurrence of \<^verbatim>\<open>N unit\<close> in a string at position \<open>p\<close>: a non-empty run of digits,
  any white space, then the unit word. The first occurrence is the one at the least
  position.
\<close>

definition occurs_at :: "string \<Rightarrow> string \<Rightarrow> nat \<Rightarrow> string \<Rightarrow> bool" where
  "occurs_at unit s p ds \<longleftrightarrow>
     ds \<noteq> [] \<and> (\<forall>c\<in>set ds. is_digit c) \<and>
     (\<exists>ws. (\<forall>c\<in>set ws. is_space c) \<and> prefix (ds @ ws @ unit) (drop p s))"

definition first_occurrence :: "string \<Rightarrow> string \<Rightarrow> string \<Rightarrow> bool" where
  "first_occurrence unit s ds \<longleftrightarrow>
     (\<exists>p. occurs_at unit s p ds \<and> (\<forall>q<p. \<forall>ds'. \<not> occurs_at unit s q ds'))"

definition no_occurrence :: "string \<Rightarrow> string \<Rightarrow> bool" where
  "no_occurrence unit s \<longleftrightarrow> (\<forall>p ds. \<not> occurs_at unit s p ds)"

definition letter_first :: "string \<Rightarrow> bool" where
  "letter_first unit \<longleftrightarrow> unit \<noteq> [] \<and> \<not> is_digit (hd unit) \<and> \<not> is_space (hd unit)"

text \<open>
  The digits the extractor converts: those of the first occurrence of weeks, else of days
  when weeks do not occur, else of months when neither weeks nor days occur.
\<close>

definition timeframe_digits :: "string \<Rightarrow> string \<Rightarrow> bool" where
  "timeframe_digits s ds \<longleftrightarrow>
     first_occurrence ''week'' s ds \<or>
     (no_occurrence ''week'' s \<and> first_occurrence ''day'' s ds) \<or>
     (no_occurrence ''week'' s \<and> no_occurrence ''day'' s \<and> first_occurrence ''month'' s ds)"

text \<open>A string mentions a keyword list when one of its words occurs in it.\<close>

definition mentions :: "string list \<Rightarrow> string \<Rightarrow> bool" where
  "mentions words s \<longleftrightarrow> (\<exists>word\<in>set words. sublist word s)"

text \<open>A text has a region when some \<^verbatim>\<open>{\<close> in it is followed, later, by a \<^verbatim>\<open>}\<close>.\<close>

definition has_region :: "string \<Rightarrow> bool" where
  "has_region s \<longleftrightarrow> (\<exists>pre mid post. s = pre @ ''{'' @ mid @ ''}'' @ post)"

text \<open>
  The largest minimum offset, in days, among the deadline formulas \<^verbatim>\<open>max(floor, ...)\<close> of a
  family's tasks; the generic tasks have none.
\<close>

fun largest_floor :: "family \<Rightarrow> int" where
  "largest_floor Product = 15"
| "largest_floor Event = 6"
| "largest_floor Learning = 10"
| "largest_floor Research = 11"
| "largest_floor Generic = 0"

section \<open>The shape of the generated tasks\<close>

lemma sequence_Inr:
  "sequence xs = Inr ys \<longleftrightarrow> list_all2 (\<lambda>x y. x = Inr y) xs ys"
proof (induction xs arbitrary: ys)
  case Nil
  then show ?case by auto
next
  case (Cons x xs)
  then show ?case
    by (cases x; cases "sequence xs") (auto simp: list_all2_Cons1)
qed

lemma new_task_Inr:
  "new_task i t d h deps dl p c = Inr x \<longleftrightarrow>
     (\<exists>day. dl = Inr day \<and>
        x = \<lparr>task_id = i, title = t, description = d, estimated_hours = h,
             dependencies = deps, deadline = day, priority = p, category = c\<rparr>)"
  by (cases dl) (auto simp: new_task_def)

lemma product_tasks_view:
  assumes "product_tasks s f td = Inr ts"
  shows "list_all2 (\<lambda>v t. task_id t = fst v \<and> dependencies t = fst (snd v) \<and> snd (snd v) = Inr (deadline t))
     [(1, [], add_days s (max 1 (td div 7))),
      (2, [1], add_days s (max 2 (td div 5))),
      (3, [2], add_days s (max 4 (td div 3))),
      (4, [2], add_days s (max 7 (int_times td (float_literal 6 10)))),
      (5, [3, 4], add_days s (max 10 (int_times td (float_literal 7 10)))),
      (6, [5], add_days s (max 13 (int_times td (float_literal 85 100)))),
      (7, [6], add_days s (max 15 (int_times td (float_literal 9 10)))),
      (8, [7], Inr f)] ts"
  using assms unfolding product_tasks_def sequence_Inr
  by (auto simp: new_task_Inr list_all2_Cons1)

lemma product_tasks_returns:
  assumes "\<forall>x\<in>set [add_days s (max 1 (td div 7)),
      add_days s (max 2 (td div 5)),
      add_days s (max 4 (td div 3)),
      add_days s (max 7 (int_times td (float_literal 6 10))),
      add_days s (max 10 (int_times td (float_literal 7 10))),
      add_days s (max 13 (int_times td (float_literal 85 100))),
      add_days s (max 15 (int_times td (float_literal 9 10)))]. isl x = False"
  shows "\<exists>ts. product_tasks s f td = Inr ts"
  using assms unfolding product_tasks_def
  by (auto simp: new_task_def isl_def split: sum.splits)

lemma event_tasks_view:
  assumes "event_tasks s f td = Inr ts"
  shows "list_all2 (\<lambda>v t. task_id t = fst v \<and> dependencies t = fst (snd v) \<and> snd (snd v) = Inr (deadline t))
     [(1, [], add_days s (max 1 (td div 6))),
      (2, [1], add_days s (max 2 (td div 4))),
      (3, [2], add_days s (max 4 (td div 2))),
      (4, [1], add_days s (max 3 (int_times td (float_literal 4 10)))),
      (5, [2, 3], add_days s (max 6 (int_times td (float_literal 75 100)))),
      (6, [3, 4, 5], Inr f)] ts"
  using assms unfolding event_tasks_def sequence_Inr
  by (auto simp: new_task_Inr list_all2_Cons1)

lemma event_tasks_returns:
  assumes "\<forall>x\<in>set [add_days s (max 1 (td div 6)),
      add_days s (max 2 (td div 4)),
      add_days s (max 4 (td div 2)),
      add_days s (max 3 (int_times td (float_literal 4 10))),
      add_days s (max 6 (int_times td (float_literal 75 100)))]. isl x = False"
  shows "\<exists>ts. event_tasks s f td = Inr ts"
  using assms unfolding event_tasks_def
  by (auto simp: new_task_def isl_def split: sum.splits)

lemma learning_tasks_view:
  assumes "learning_tasks subject s f td = Inr ts"
  shows "list_all2 (\<lambda>v t. task_id t = fst v \<and> dependencies t = fst (snd v) \<and> snd (snd v) = Inr (deadline t))
     [(1, [], add_days s (max 2 (td div 5))),
      (2, [1], add_days s (max 6 (int_times td (float_literal 6 10)))),
      (3, [2], add_days s (max 10 (int_times td (float_literal 8 10)))),
      (4, [3], Inr f)] ts"
  using assms unfolding learning_tasks_def sequence_Inr
  by (auto simp: new_task_Inr list_all2_Cons1)

lemma learning_tasks_returns:
  assumes "\<forall>x\<in>set [add_days s (max 2 (td div 5)),
      add_days s (max 6 (int_times td (float_literal 6 10))),
      add_days s (max 10 (int_times td (float_literal 8 10)))]. isl x = False"
  shows "\<exists>ts. learning_tasks subject s f td = Inr ts"
  using assms unfolding learning_tasks_def
  by (auto simp: new_task_def isl_def split: sum.splits)

lemma research_tasks_view:
  assumes "research_tasks s f td = Inr ts"
  shows "list_all2 (\<lambda>v t. task_id t = fst v \<and> dependencies t = fst (snd v) \<and> snd (snd v) = Inr (deadline t))
     [(1, [], add_days s (max 2 (td div 4))),
      (2, [1], add_days s (max 4 (td div 3))),
      (3, [2], add_days s (max 8 (int_times td (float_literal 65 100)))),
      (4, [3], add_days s (max 11 (int_times td (float_literal 85 100)))),
      (5, [4], Inr f)] ts"
  using assms unfolding research_tasks_def sequence_Inr
  by (auto simp: new_task_Inr list_all2_Cons1)

lemma research_tasks_returns:
  assumes "\<forall>x\<in>set [add_days s (max 2 (td div 4)),
      add_days s (max 4 (td div 3)),
      add_days s (max 8 (int_times td (float_literal 65 100))),
      add_days s (max 11 (int_times td (float_literal 85 100)))]. isl x = False"
  shows "\<exists>ts. research_tasks s f td = Inr ts"
  using assms unfolding research_tasks_def
  by (auto simp: new_task_def isl_def split: sum.splits)

lemma list_all2_in_set2:
  "list_all2 P xs ys \<Longrightarrow> y \<in> set ys \<Longrightarrow> \<exists>x\<in>set xs. P x y"
  by (metis in_set_conv_nth list_all2_conv_all_nth)

lemma add_days_Inr:
  "add_days d n = Inr x \<longleftrightarrow>
     \<bar>n\<bar> \<le> 999999999 \<and> 0 < d + n \<and> d + n \<le> MAXORDINAL \<and> x = d + n"
  by (auto simp: add_days_def timedelta_def)

lemma generic_task_Inr:
  assumes "generic_task goal s dur i = Inr t"
  shows "task_id t = i + 1 \<and> dependencies t = (if 0 < i then [i] else []) \<and>
         add_days s (int_times i dur) = Inr (deadline t)"
  using assms by (auto simp: generic_task_def Let_def new_task_Inr)

lemma generic_tasks_view:
  assumes "generic_tasks goal s td = Inr ts"
  shows "\<exists>dur. true_div td (max 4 (min 7 (td div 3))) = Inr dur \<and>
           list_all2 (\<lambda>i t. generic_task goal s dur i = Inr t)
             [0..max 4 (min 7 (td div 3)) - 1] ts"
  using assms unfolding generic_tasks_def Let_def
  by (auto simp: sequence_Inr list_all2_map1 split: sum.splits)

lemma generic_tasks_length:
  assumes "generic_tasks goal s td = Inr ts"
  shows "int (length ts) = max 4 (min 7 (td div 3))"
proof -
  from generic_tasks_view [OF assms] have "length [0..max 4 (min 7 (td div 3)) - 1] = length ts"
    by (auto dest: list_all2_lengthD)
  then show ?thesis by simp
qed

lemma select_tasks_count:
  assumes "select_tasks goal s f td = Inr ts"
  shows "int (length ts) =
           (case classify (lower goal) of
              Product \<Rightarrow> 8 | Event \<Rightarrow> 6 | Learning \<Rightarrow> 4 | Research \<Rightarrow> 5
            | Generic \<Rightarrow> max 4 (min 7 (td div 3)))"
proof (cases "classify (lower goal)")
  case Product
  then have "product_tasks s f td = Inr ts" using assms by (simp add: select_tasks_def)
  from product_tasks_view [OF this] show ?thesis using Product
    by (auto dest!: list_all2_lengthD)
next
  case Event
  then have "event_tasks s f td = Inr ts" using assms by (simp add: select_tasks_def)
  from event_tasks_view [OF this] show ?thesis using Event
    by (auto dest!: list_all2_lengthD)
next
  case Learning
  then have "learning_tasks (find_subject (split goal)) s f td = Inr ts"
    using assms by (simp add: select_tasks_def)
  from learning_tasks_view [OF this] show ?thesis using Learning
    by (auto dest!: list_all2_lengthD)
next
  case Research
  then have "research_tasks s f td = Inr ts" using assms by (simp add: select_tasks_def)
  from research_tasks_view [OF this] show ?thesis using Research
    by (auto dest!: list_all2_lengthD)
next
  case Generic
  then have "generic_tasks goal s td = Inr ts" using assms by (simp add: select_tasks_def)
  from generic_tasks_length [OF this] show ?thesis using Generic by simp
qed

lemma select_tasks_length:
  assumes "select_tasks goal s f td = Inr ts"
  shows "3 < length ts"
  using select_tasks_count [OF assms] by (cases "classify (lower goal)") simp_all

lemma select_tasks_dependencies:
  assumes "select_tasks goal s f td = Inr ts" and "t \<in> set ts" and "d \<in> set (dependencies t)"
  shows "0 < d \<and> d < task_id t"
proof (cases "classify (lower goal)")
  case Product
  then have "product_tasks s f td = Inr ts" using assms(1) by (simp add: select_tasks_def)
  from list_all2_in_set2 [OF product_tasks_view [OF this] assms(2)] assms(3)
  show ?thesis by auto
next
  case Event
  then have "event_tasks s f td = Inr ts" using assms(1) by (simp add: select_tasks_def)
  from list_all2_in_set2 [OF event_tasks_view [OF this] assms(2)] assms(3)
  show ?thesis by auto
next
  case Learning
  then have "learning_tasks (find_subject (split goal)) s f td = Inr ts"
    using assms(1) by (simp add: select_tasks_def)
  from list_all2_in_set2 [OF learning_tasks_view [OF this] assms(2)] assms(3)
  show ?thesis by auto
next
  case Research
  then have "research_tasks s f td = Inr ts" using assms(1) by (simp add: select_tasks_def)
  from list_all2_in_set2 [OF research_tasks_view [OF this] assms(2)] assms(3)
  show ?thesis by auto
next
  case Generic
  then have "generic_tasks goal s td = Inr ts" using assms(1) by (simp add: select_tasks_def)
  from generic_tasks_view [OF this] obtain dur where
    "list_all2 (\<lambda>i t. generic_task goal s dur i = Inr t) [0..max 4 (min 7 (td div 3)) - 1] ts"
    by blast
  from list_all2_in_set2 [OF this assms(2)] obtain i where "generic_task goal s dur i = Inr t"
    by blast
  from generic_task_Inr [OF this] assms(3) show ?thesis by (auto split: if_splits)
qed

lemma fallback_Inr:
  assumes "fallback_plan_generation now goal = Inr p"
  shows "\<exists>td. extract_timeframe goal = Inr td \<and>
         add_days now td = Inr (end_date (timeline p)) \<and>
         select_tasks goal now (end_date (timeline p)) td = Inr (tasks p) \<and>
         create_milestones (tasks p) now (end_date (timeline p)) td
           = Inr (milestones (timeline p)) \<and>
         start_date (timeline p) = now \<and> plan_goal p = goal"
  using assms unfolding fallback_plan_generation_def Let_def
  by (auto split: sum.splits)

lemma create_milestones_Inr:
  assumes "create_milestones ts s f td = Inr ms"
  shows "map tasks_completed ms =
           (if 3 < length ts
            then [[], map task_id (take (length ts div 3) ts),
                  map task_id (take (length ts * 2 div 3) ts), map task_id ts]
            else [[], map task_id ts])"
    and "date (hd ms) = s" and "date (last ms) = f"
  using assms unfolding create_milestones_def Let_def
  by (auto split: sum.splits if_splits)

lemma completed_chain:
  assumes "map tasks_completed ms =
           (if 3 < length ts
            then [[], map task_id (take (length ts div 3) ts),
                  map task_id (take (length ts * 2 div 3) ts), map task_id ts]
            else [[], map task_id ts])"
    and "Suc i < length ms"
  shows "set (tasks_completed (ms ! i)) \<subseteq> set (tasks_completed (ms ! Suc i))"
proof -
  let ?a = "map task_id (take (length ts div 3) ts)"
  let ?b = "map task_id (take (length ts * 2 div 3) ts)"
  have ab: "set ?a \<subseteq> set ?b"
    by (auto intro!: imageI set_take_subset_set_take [THEN subsetD, of "length ts div 3"])
  have bc: "set ?b \<subseteq> set (map task_id ts)"
    by (auto dest: in_set_takeD)
  have len: "length ms = length (map tasks_completed ms)" by simp
  have nth: "\<And>j. j < length ms \<Longrightarrow> tasks_completed (ms ! j) = map tasks_completed ms ! j"
    by simp
  show ?thesis
  proof (cases "3 < length ts")
    case True
    then have m: "map tasks_completed ms = [[], ?a, ?b, map task_id ts]" using assms(1) by simp
    then have "length ms = 4" using len by simp
    then have i: "i = 0 \<or> i = Suc 0 \<or> i = Suc (Suc 0)" using assms(2) by linarith
    have n0: "tasks_completed (ms ! 0) = []"
      and n1: "tasks_completed (ms ! Suc 0) = ?a"
      and n2: "tasks_completed (ms ! Suc (Suc 0)) = ?b"
      and n3: "tasks_completed (ms ! Suc (Suc (Suc 0))) = map task_id ts"
      using \<open>length ms = 4\<close> nth [of 0] nth [of "Suc 0"] nth [of "Suc (Suc 0)"]
        nth [of "Suc (Suc (Suc 0))"] unfolding m by simp_all
    from i show ?thesis
    proof (elim disjE)
      assume "i = 0" then show ?thesis by (simp add: n0)
    next
      assume "i = Suc 0" then show ?thesis using ab by (simp only: n1 n2)
    next
      assume "i = Suc (Suc 0)" then show ?thesis using bc by (simp only: n2 n3)
    qed
  next
    case False
    then have m: "map tasks_completed ms = [[], map task_id ts]" using assms(1) by simp
    then have "length ms = 2" using len by simp
    then have "i = 0" using assms(2) by linarith
    moreover have "tasks_completed (ms ! 0) = []"
      using \<open>length ms = 2\<close> nth [of 0] unfolding m by simp
    ultimately show ?thesis by simp
  qed
qed

section \<open>Bounds on the floating-point offsets\<close>

lemma round53_bound:
  assumes "0 \<le> m"
  shows "\<exists>k. round53 (m, e) = (fst (round53 (m, e)), e + int k) \<and>
             0 \<le> fst (round53 (m, e)) \<and>
             fst (round53 (m, e)) * 2 ^ k \<le> m + m div 2 ^ 52"
proof (cases "m < 2 ^ 53")
  case True
  have "0 \<le> m div 2 ^ 52" using assms by (simp add: pos_imp_zdiv_nonneg_iff)
  then show ?thesis using True assms
    by (intro exI [of _ 0]) (simp add: round53_def)
next
  case False
  define k where "k = nat (bitlen m - 53)"
  define q where "q = m div 2 ^ k"
  define r where "r = m mod 2 ^ k"
  define q' where "q' = (if 2 ^ k < 2 * r \<or> (2 * r = 2 ^ k \<and> odd q) then q + 1 else q)"
  have r53: "round53 (m, e) = (q', e + int k)"
    using False by (simp add: round53_def Let_def k_def q_def r_def q'_def)
  have mpos: "0 < m" using False by (smt (verit) zero_less_power)
  from bitlen_bounds [OF mpos] have lo: "2 ^ nat (bitlen m - 1) \<le> m" by simp
  have "\<not> bitlen m \<le> 53" using False by (simp add: bitlen_le_iff_power)
  then have b54: "54 \<le> bitlen m" by simp
  then have "nat (bitlen m - 1) = k + 52" by (simp add: k_def)
  then have "(2::int) ^ (k + 52) \<le> m" using lo by simp
  then have kk: "(2::int) ^ k * 2 ^ 52 \<le> m" by (simp add: power_add)
  then have k52: "(2::int) ^ k \<le> m div 2 ^ 52"
    by (simp add: zdiv_mono1 pos_imp_zdiv_nonneg_iff le_div_geq)
  have q0: "0 \<le> q" using mpos by (simp add: q_def pos_imp_zdiv_nonneg_iff)
  have "2 ^ k * q + r = m" unfolding q_def r_def by (rule mult_div_mod_eq)
  moreover have "0 \<le> r" unfolding r_def by simp
  ultimately have qm: "q * 2 ^ k \<le> m" by (simp add: mult.commute)
  have "q' \<le> q + 1" by (simp add: q'_def)
  then have "q' * 2 ^ k \<le> (q + 1) * 2 ^ k" by (rule mult_right_mono) simp
  also have "\<dots> = q * 2 ^ k + 2 ^ k" by (simp add: distrib_right)
  finally have "q' * 2 ^ k \<le> m + 2 ^ k" using qm by linarith
  then have "q' * 2 ^ k \<le> m + m div 2 ^ 52" using k52 by linarith
  moreover have "0 \<le> q'" using q0 by (simp add: q'_def)
  ultimately show ?thesis using r53 by (intro exI [of _ k]) simp
qed


lemma int_of_float_nonneg: "0 \<le> m \<Longrightarrow> 0 \<le> int_of_float (m, e)"
  by (simp add: int_of_float_def pos_imp_zdiv_nonneg_iff)

lemma int_of_float_le:
  assumes "0 \<le> m" and "m * 2 ^ k \<le> x * 2 ^ j"
  shows "int_of_float (m, int k - int j) \<le> x"
proof (cases "j \<le> k")
  case True
  then have e: "(2::int) ^ (k - j) * 2 ^ j = 2 ^ k"
    by (simp add: power_add [symmetric])
  have "(m * 2 ^ (k - j)) * 2 ^ j = m * 2 ^ k" by (simp only: mult.assoc e)
  then have "(m * 2 ^ (k - j)) * 2 ^ j \<le> x * 2 ^ j" using assms(2) by (simp only:)
  then have "m * 2 ^ (k - j) \<le> x" by (rule mult_right_le_imp_le) simp
  moreover have "nat (int k - int j) = k - j" using True by simp
  ultimately show ?thesis using True by (simp add: int_of_float_def)
next
  case False
  then have jk: "k < j" by simp
  then have e: "(2::int) ^ (j - k) * 2 ^ k = 2 ^ j"
    by (simp add: power_add [symmetric])
  have "x * 2 ^ j = (x * 2 ^ (j - k)) * 2 ^ k" by (simp only: mult.assoc e)
  then have "m * 2 ^ k \<le> (x * 2 ^ (j - k)) * 2 ^ k" using assms(2) by (simp only:)
  then have "m \<le> x * 2 ^ (j - k)" by (rule mult_right_le_imp_le) simp
  then have "m div 2 ^ (j - k) \<le> (x * 2 ^ (j - k)) div 2 ^ (j - k)"
    by (rule zdiv_mono1) simp
  then have "m div 2 ^ (j - k) \<le> x" by simp
  moreover have "nat (- (int k - int j)) = j - k" using jk by simp
  ultimately show ?thesis using jk by (simp add: int_of_float_def)
qed

lemma float_of_int_exact: "n < 2 ^ 53 \<Longrightarrow> float_of_int n = (n, 0)"
  by (simp add: float_of_int_def round53_def)

text \<open>
  Multiplying a day count by a literal below one and truncating never gives more than
  the day count.
\<close>

lemma int_times_le:
  assumes "0 \<le> n" and "n < 2 ^ 53" and "0 \<le> c" and "c \<le> 2 ^ 53" and "c + 2 \<le> 2 ^ j"
  shows "0 \<le> int_times n (c, - int j) \<and> int_times n (c, - int j) \<le> n"
proof -
  have nc: "0 \<le> n * c" using assms by simp
  from round53_bound [OF nc, of "- int j"] obtain k where
    r: "round53 (n * c, - int j) = (fst (round53 (n * c, - int j)), - int j + int k)"
    and p: "0 \<le> fst (round53 (n * c, - int j))"
    and b: "fst (round53 (n * c, - int j)) * 2 ^ k \<le> n * c + (n * c) div 2 ^ 52"
    by blast
  define m where "m = fst (round53 (n * c, - int j))"
  have t: "int_times n (c, - int j) = int_of_float (m, int k - int j)"
    using r by (simp add: int_times_def float_mul_def float_of_int_exact [OF assms(2)] m_def)
  have "n * c \<le> n * 2 ^ 53" using assms by (simp add: mult_left_mono)
  then have "(n * c) div 2 ^ 52 \<le> (n * 2 ^ 53) div 2 ^ 52" by (rule zdiv_mono1) simp
  also have "(n * 2 ^ 53) div 2 ^ 52 = n * 2" by simp
  finally have "n * c + (n * c) div 2 ^ 52 \<le> n * (c + 2)" by (simp add: distrib_left)
  also have "\<dots> \<le> n * 2 ^ j" using assms by (simp add: mult_left_mono)
  finally have "m * 2 ^ k \<le> n * 2 ^ j" using b by (simp add: m_def)
  then have "int_of_float (m, int k - int j) \<le> n"
    using p by (intro int_of_float_le) (simp_all add: m_def)
  moreover have "0 \<le> int_of_float (m, int k - int j)"
    using p by (intro int_of_float_nonneg) (simp add: m_def)
  ultimately show ?thesis using t by simp
qed

lemma float_literals:
  "float_literal 6 10 = (5404319552844595, - 53)"
  "float_literal 7 10 = (6305039478318694, - 53)"
  "float_literal 85 100 = (7656119366529843, - 53)"
  "float_literal 9 10 = (8106479329266893, - 53)"
  "float_literal 4 10 = (7205759403792794, - 54)"
  "float_literal 75 100 = (6755399441055744, - 53)"
  "float_literal 8 10 = (7205759403792794, - 53)"
  "float_literal 65 100 = (5854679515581645, - 53)"
  by code_simp+

lemma int_times_literal:
  assumes "0 \<le> n" and "n < 2 ^ 53"
  shows "0 \<le> int_times n (float_literal 6 10) \<and> int_times n (float_literal 6 10) \<le> n"
    and "0 \<le> int_times n (float_literal 7 10) \<and> int_times n (float_literal 7 10) \<le> n"
    and "0 \<le> int_times n (float_literal 85 100) \<and> int_times n (float_literal 85 100) \<le> n"
    and "0 \<le> int_times n (float_literal 9 10) \<and> int_times n (float_literal 9 10) \<le> n"
    and "0 \<le> int_times n (float_literal 4 10) \<and> int_times n (float_literal 4 10) \<le> n"
    and "0 \<le> int_times n (float_literal 75 100) \<and> int_times n (float_literal 75 100) \<le> n"
    and "0 \<le> int_times n (float_literal 8 10) \<and> int_times n (float_literal 8 10) \<le> n"
    and "0 \<le> int_times n (float_literal 65 100) \<and> int_times n (float_literal 65 100) \<le> n"
  unfolding float_literals
  using int_times_le [OF assms, of _ 53] int_times_le [OF assms, of _ 54]
  by simp_all


lemma bitlen_4_to_7: "4 \<le> n \<Longrightarrow> n \<le> 7 \<Longrightarrow> bitlen n = 3"
proof -
  assume a: "4 \<le> n" "n \<le> 7"
  have "bitlen n \<le> 3" using a by (simp add: bitlen_le_iff_power)
  moreover have "3 \<le> bitlen n" using a by (simp add: bitlen_ge_iff_power)
  ultimately show ?thesis by simp
qed

text \<open>
  The deadline offset of the \<open>i\<close>-th generic task, \<^verbatim>\<open>int(i * (total_days / num_tasks))\<close>,
  lies between nought and \<^verbatim>\<open>total_days\<close>.
\<close>

lemma generic_offset_le:
  assumes td: "0 \<le> td" "td < 2 ^ 53" and n: "4 \<le> n" "n \<le> 7" and i: "0 \<le> i" "i < n"
    and dur: "true_div td n = Inr dur"
  shows "0 \<le> int_times i dur \<and> int_times i dur \<le> td"
proof (cases "td = 0")
  case True
  then have "dur = (0, 0)" using dur n by (simp add: true_div_def)
  then have "int_times i dur = 0"
    by (simp add: int_times_def float_mul_def round53_def int_of_float_def)
  then show ?thesis using True by simp
next
  case False
  then have pos: "0 < td" using td by simp
  have i53: "i < 2 ^ 53" using i n by simp
  define d where "d = 57 - bitlen td"
  have "bitlen td \<le> 53" using td by (simp add: bitlen_le_iff_power)
  moreover have "1 \<le> bitlen td" using pos by (simp add: bitlen_ge_iff_power)
  ultimately have bt: "1 \<le> bitlen td" "bitlen td \<le> 53" by simp_all
  then have d0: "0 \<le> d" by (simp add: d_def)
  define y where "y = td * 2 ^ nat d"
  define q where "q = y div n"
  define a where "a = 2 * q + (if y mod n = 0 then 0 else 1)"
  define j where "j = nat d + 1"
  have dd: "54 + bitlen n - bitlen td = d" using bitlen_4_to_7 [OF n] by (simp add: d_def)
  have ej: "- d - 1 = - int j" using d0 by (simp add: j_def)
  have dur': "dur = round53 (a, - int j)"
    using dur n False d0 unfolding true_div_def dd Let_def
    by (simp add: a_def q_def y_def ej)
  \<comment> \<open>the scaled numerator is large\<close>
  from bitlen_bounds [OF pos] have "2 ^ nat (bitlen td - 1) \<le> td" by simp
  then have "(2::int) ^ nat (bitlen td - 1) * 2 ^ nat d \<le> td * 2 ^ nat d"
    by (rule mult_right_mono) simp
  moreover have "nat (bitlen td - 1) + nat d = 56" using bt by (simp add: d_def)
  ultimately have ybig: "2 ^ 56 \<le> y"
    by (simp add: y_def power_add [symmetric])
  have npos: "0 < n" using n by simp
  have q0: "0 \<le> q" using ybig npos by (simp add: q_def pos_imp_zdiv_nonneg_iff)
  have "n * q + y mod n = y" unfolding q_def by (rule mult_div_mod_eq)
  moreover have "0 \<le> y mod n" using npos by simp
  ultimately have nq: "n * q \<le> y" by linarith
  have a0: "0 \<le> a" using q0 by (simp add: a_def)
  have aq: "a \<le> 2 * q + 1" by (simp add: a_def)
  \<comment> \<open>the quotient, rounded\<close>
  from round53_bound [OF a0, of "- int j"] obtain k1 where
    r1: "round53 (a, - int j) = (fst (round53 (a, - int j)), - int j + int k1)"
    and p1: "0 \<le> fst (round53 (a, - int j))"
    and b1: "fst (round53 (a, - int j)) * 2 ^ k1 \<le> a + a div 2 ^ 52"
    by blast
  define m1 where "m1 = fst (round53 (a, - int j))"
  define u where "u = m1 * 2 ^ k1"
  have durm: "dur = (m1, - int j + int k1)" using dur' r1 by (simp add: m1_def)
  have u0: "0 \<le> u" using p1 by (simp add: u_def m1_def)
  have ua: "u \<le> a + a div 2 ^ 52" using b1 by (simp add: u_def m1_def)
  have "2 ^ 52 * (a div 2 ^ 52) + a mod 2 ^ 52 = a" by (rule mult_div_mod_eq)
  moreover have "0 \<le> a mod 2 ^ 52" by simp
  ultimately have a52: "2 ^ 52 * (a div 2 ^ 52) \<le> a" by linarith
  \<comment> \<open>the product, rounded\<close>
  define b where "b = i * m1"
  have b0: "0 \<le> b" using i p1 by (simp add: b_def m1_def)
  from round53_bound [OF b0, of "- int j + int k1"] obtain k2 where
    r2: "round53 (b, - int j + int k1) = (fst (round53 (b, - int j + int k1)), - int j + int k1 + int k2)"
    and p2: "0 \<le> fst (round53 (b, - int j + int k1))"
    and b2: "fst (round53 (b, - int j + int k1)) * 2 ^ k2 \<le> b + b div 2 ^ 52"
    by blast
  define m2 where "m2 = fst (round53 (b, - int j + int k1))"
  have "int_times i dur = int_of_float (round53 (b, - int j + int k1))"
    by (simp add: int_times_def float_mul_def float_of_int_exact [OF i53] durm b_def)
  also have "\<dots> = int_of_float (m2, - int j + int k1 + int k2)"
    by (subst r2) (simp add: m2_def)
  also have "- int j + int k1 + int k2 = int (k1 + k2) - int j" by simp
  finally have t: "int_times i dur = int_of_float (m2, int (k1 + k2) - int j)" .
  define z where "z = (b div 2 ^ 52) * 2 ^ k1"
  define v where "v = i * u"
  have bv: "b * 2 ^ k1 = v" by (simp add: b_def v_def u_def)
  have "2 ^ 52 * (b div 2 ^ 52) + b mod 2 ^ 52 = b" by (rule mult_div_mod_eq)
  moreover have "0 \<le> b mod 2 ^ 52" by simp
  ultimately have "2 ^ 52 * (b div 2 ^ 52) \<le> b" by linarith
  then have "(2 ^ 52 * (b div 2 ^ 52)) * 2 ^ k1 \<le> b * 2 ^ k1" by (rule mult_right_mono) simp
  then have zv: "2 ^ 52 * z \<le> v" using bv by (simp add: z_def mult.assoc)
  have "m2 * 2 ^ k2 \<le> b + b div 2 ^ 52" using b2 by (simp add: m2_def)
  then have "(m2 * 2 ^ k2) * 2 ^ k1 \<le> (b + b div 2 ^ 52) * 2 ^ k1" by (rule mult_right_mono) simp
  also have "\<dots> = v + z" using bv by (simp add: z_def distrib_right)
  finally have "(m2 * 2 ^ k2) * 2 ^ k1 \<le> v + z" .
  moreover have "(m2 * 2 ^ k2) * 2 ^ k1 = m2 * 2 ^ (k1 + k2)"
    by (simp add: power_add)
  ultimately have w: "m2 * 2 ^ (k1 + k2) \<le> v + z" by (simp only:)
  have "i \<le> n - 1" using i by simp
  then have "i * u \<le> (n - 1) * u" using u0 by (rule mult_right_mono)
  then have vu: "v \<le> (n - 1) * u" by (simp add: v_def)
  have "v + z \<le> 2 * y"
  proof -
    consider "n = 4" | "n = 5" | "n = 6" | "n = 7" using n by linarith
    then show ?thesis
    proof cases
      case 1 then show ?thesis using vu zv ua a52 aq nq ybig u0 by simp
    next
      case 2 then show ?thesis using vu zv ua a52 aq nq ybig u0 by simp
    next
      case 3 then show ?thesis using vu zv ua a52 aq nq ybig u0 by simp
    next
      case 4 then show ?thesis using vu zv ua a52 aq nq ybig u0 by simp
    qed
  qed
  then have "m2 * 2 ^ (k1 + k2) \<le> 2 * y" using w by linarith
  also have "2 * y = td * 2 ^ j" by (simp add: y_def j_def)
  finally have "int_of_float (m2, int (k1 + k2) - int j) \<le> td"
    using p2 by (intro int_of_float_le) (simp_all add: m2_def)
  moreover have "0 \<le> int_of_float (m2, int (k1 + k2) - int j)"
    using p2 by (intro int_of_float_nonneg) (simp add: m2_def)
  ultimately show ?thesis using t by simp
qed

section \<open>Day counts and dates in range\<close>

lemma decimal_value_nonneg_aux:
  "0 \<le> a \<Longrightarrow> \<forall>c\<in>set x. is_digit c \<Longrightarrow> 0 \<le> foldl (\<lambda>a c. 10 * a + digit_value c) a x"
proof (induction x arbitrary: a)
  case Nil
  then show ?case by simp
next
  case (Cons c x)
  have "48 \<le> (of_char c :: nat)" using Cons.prems(2) by (simp add: is_digit_def Let_def)
  then have "48 \<le> int (of_char c)" by linarith
  then have "0 \<le> digit_value c" unfolding digit_value_def by linarith
  then have "0 \<le> 10 * a + digit_value c" using Cons.prems(1) by simp
  then show ?case using Cons.IH Cons.prems(2) by simp
qed

lemma decimal_value_nonneg: "\<forall>c\<in>set x. is_digit c \<Longrightarrow> 0 \<le> decimal_value x"
  by (simp add: decimal_value_def decimal_value_nonneg_aux)

lemma py_int_Inr: "py_int x = Inr n \<longleftrightarrow> length x \<le> 4300 \<and> n = decimal_value x"
  by (auto simp: py_int_def)

lemma py_int_Inl: "py_int x = Inl e \<longleftrightarrow> 4300 < length x \<and> e = ValueError"
  by (auto simp: py_int_def)

lemma match_here_digits: "match_here unit s = Some ds \<Longrightarrow> \<forall>c\<in>set ds. is_digit c"
  by (auto simp: match_here_def Let_def split: if_splits dest: set_takeWhileD)

lemma re_search_digits: "re_search unit s = Some ds \<Longrightarrow> \<forall>c\<in>set ds. is_digit c"
  by (induction s) (auto split: option.splits dest: match_here_digits)

text \<open>
  What the loop over the patterns comes to: the digits of the first pattern that matches,
  with the factor of its unit.
\<close>

lemma first_pattern_time_patterns:
  "first_pattern time_patterns s =
     (case re_search ''week'' s of
        Some g \<Rightarrow> Some (case py_int g of Inl e \<Rightarrow> Inl e | Inr n \<Rightarrow> Inr (n * 7))
      | None \<Rightarrow>
          (case re_search ''day'' s of
             Some g \<Rightarrow> Some (py_int g)
           | None \<Rightarrow>
               (case re_search ''month'' s of
                  Some g \<Rightarrow> Some (case py_int g of Inl e \<Rightarrow> Inl e | Inr n \<Rightarrow> Inr (n * 30))
                | None \<Rightarrow> None)))"
  by (simp add: time_patterns_def split: option.splits)

lemma extract_timeframe_nonneg:
  assumes "extract_timeframe goal = Inr td"
  shows "0 \<le> td"
proof -
  have "\<And>ds unit. re_search unit (lower goal) = Some ds \<Longrightarrow> 0 \<le> decimal_value ds"
    using re_search_digits decimal_value_nonneg by blast
  then show ?thesis
    using assms unfolding extract_timeframe_def first_pattern_time_patterns
    by (auto simp: py_int_Inr split: option.splits sum.splits)
qed

lemma extract_timeframe_Inl:
  assumes "extract_timeframe goal = Inl e"
  shows "e = ValueError"
  using assms unfolding extract_timeframe_def first_pattern_time_patterns
  by (auto simp: py_int_Inl split: option.splits sum.splits)

lemma sequence_map_returns:
  assumes "\<forall>x\<in>set xs. \<exists>v. f x = Inr v"
  shows "\<exists>vs. sequence (map f xs) = Inr vs"
  using assms by (induction xs) auto

text \<open>An offset that keeps the date in range.\<close>

lemma add_days_returns:
  assumes "0 < s" and "0 \<le> off" and "s + off \<le> MAXORDINAL"
  shows "add_days s off = Inr (s + off)"
  using assms by (simp add: add_days_def timedelta_def MAXORDINAL_def)

lemma div_le_self_int:
  assumes "0 \<le> (a::int)" and "0 < k"
  shows "0 \<le> a div k \<and> a div k \<le> a"
proof (cases "a = 0")
  case True
  then show ?thesis by simp
next
  case False
  then have "0 < a" using assms(1) by simp
  then have "a div k \<le> a" by (rule int_div_le_self)
  then show ?thesis using assms by (simp add: pos_imp_zdiv_nonneg_iff)
qed

section \<open>Deadlines of the four named families\<close>

lemma view_deadlines:
  assumes "list_all2 (\<lambda>v t. task_id t = fst v \<and> dependencies t = fst (snd v) \<and>
              snd (snd v) = Inr (deadline t)) vs ts"
  shows "map (\<lambda>v. snd (snd v)) vs = map (\<lambda>t. Inr (deadline t)) ts"
  using assms by (induction rule: list_all2_induct) simp_all

lemma deadline_bounds:
  assumes eq: "map (add_days s) offs @ [Inr f] = map (\<lambda>t. Inr (deadline t)) ts"
    and t: "t \<in> set ts"
    and offs: "\<forall>off\<in>set offs. 0 \<le> off \<and> off \<le> m"
    and f: "s \<le> f" "f \<le> s + m"
  shows "s \<le> deadline t \<and> deadline t \<le> s + m"
proof -
  have "Inr (deadline t) \<in> set (map (\<lambda>t. Inr (deadline t)) ts)" using t by simp
  then have "Inr (deadline t) \<in> set (map (add_days s) offs @ [Inr f])" by (simp only: eq)
  then have "(\<exists>off\<in>set offs. add_days s off = Inr (deadline t)) \<or> deadline t = f" by auto
  then show ?thesis
  proof
    assume "\<exists>off\<in>set offs. add_days s off = Inr (deadline t)"
    then obtain off where "off \<in> set offs" and a: "add_days s off = Inr (deadline t)" by blast
    then have "0 \<le> off" "off \<le> m" using offs by auto
    moreover have "deadline t = s + off" using a by (simp add: add_days_Inr)
    ultimately show ?thesis by simp
  next
    assume "deadline t = f"
    then show ?thesis using f by simp
  qed
qed

lemma offsets_return:
  assumes "\<forall>off\<in>set offs. 0 \<le> off \<and> off \<le> m" and "0 < s" and "s + m \<le> MAXORDINAL"
  shows "\<forall>x\<in>set (map (add_days s) offs). isl x = False"
proof -
  have "add_days s off = Inr (s + off)" if "off \<in> set offs" for off
    using that assms by (intro add_days_returns) auto
  then show ?thesis by auto
qed

lemma offsets_in_range:
  assumes eq: "map (add_days s) offs @ [Inr f] = map (\<lambda>t. Inr (deadline t)) ts"
    and off: "off \<in> set offs"
  shows "s + off \<le> MAXORDINAL"
proof -
  have "add_days s off \<in> set (map (add_days s) offs @ [Inr f])" using off by simp
  then have "add_days s off \<in> set (map (\<lambda>t. Inr (deadline t)) ts)" by (simp only: eq)
  then obtain d where "add_days s off = Inr d" by auto
  then show ?thesis by (simp add: add_days_Inr)
qed

lemma last_deadline:
  assumes eq: "map (add_days s) offs @ [Inr f] = map (\<lambda>t. Inr (deadline t)) ts"
  shows "ts \<noteq> [] \<and> deadline (last ts) = f"
proof -
  have ne: "ts \<noteq> []" using eq by auto
  have "last (map (add_days s) offs @ [Inr f]) = last (map (\<lambda>t. Inr (deadline t)) ts)"
    by (simp only: eq)
  then have "Inr f = (Inr (deadline (last ts)) :: py_error + int)"
    using ne by (simp add: last_map)
  then show ?thesis using ne by simp
qed

lemma product_offsets:
  assumes "0 \<le> td" and "td < 2 ^ 53"
  shows "\<forall>off\<in>set [max 1 (td div 7),
            max 2 (td div 5),
            max 4 (td div 3),
            max 7 (int_times td (float_literal 6 10)),
            max 10 (int_times td (float_literal 7 10)),
            max 13 (int_times td (float_literal 85 100)),
            max 15 (int_times td (float_literal 9 10))]. 0 \<le> off \<and> off \<le> max td 15"
  using int_times_literal(1,2,3,4) [OF assms] div_le_self_int [OF assms(1), of 3] div_le_self_int [OF assms(1), of 5] div_le_self_int [OF assms(1), of 7]
  by (simp, (intro conjI; linarith))

lemma product_view_deadlines:
  assumes "product_tasks s f td = Inr ts"
  shows "map (add_days s) [max 1 (td div 7),
            max 2 (td div 5),
            max 4 (td div 3),
            max 7 (int_times td (float_literal 6 10)),
            max 10 (int_times td (float_literal 7 10)),
            max 13 (int_times td (float_literal 85 100)),
            max 15 (int_times td (float_literal 9 10))] @ [Inr f]
     = map (\<lambda>t. Inr (deadline t)) ts"
  using view_deadlines [OF product_tasks_view [OF assms]] by simp

lemma product_deadlines:
  assumes "product_tasks s (s + td) td = Inr ts" and "t \<in> set ts" and "0 \<le> td" and "td < 2 ^ 53"
  shows "s \<le> deadline t \<and> deadline t \<le> s + max td 15"
  using deadline_bounds [OF product_view_deadlines [OF assms(1)] assms(2) product_offsets [OF assms(3,4)]]
    assms(3)
  by simp

lemma product_last_deadline:
  assumes "product_tasks s f td = Inr ts"
  shows "ts \<noteq> [] \<and> deadline (last ts) = f"
  by (rule last_deadline [OF product_view_deadlines [OF assms]])

lemma product_floor_in_range:
  assumes "product_tasks s f td = Inr ts"
  shows "s + 15 \<le> MAXORDINAL"
proof -
  have "s + max 15 (int_times td (float_literal 9 10)) \<le> MAXORDINAL"
    by (rule offsets_in_range [OF product_view_deadlines [OF assms]]) simp
  then show ?thesis by linarith
qed

lemma product_returns:
  assumes "0 < s" and "0 \<le> td" and "td < 2 ^ 53" and "s + max td 15 \<le> MAXORDINAL"
  shows "\<exists>ts. product_tasks s f td = Inr ts"
proof -
  have "\<forall>x\<in>set (map (add_days s) [max 1 (td div 7),
            max 2 (td div 5),
            max 4 (td div 3),
            max 7 (int_times td (float_literal 6 10)),
            max 10 (int_times td (float_literal 7 10)),
            max 13 (int_times td (float_literal 85 100)),
            max 15 (int_times td (float_literal 9 10))]). isl x = False"
    by (rule offsets_return [OF product_offsets [OF assms(2,3)] assms(1,4)])
  then show ?thesis by (intro product_tasks_returns) simp
qed

lemma event_offsets:
  assumes "0 \<le> td" and "td < 2 ^ 53"
  shows "\<forall>off\<in>set [max 1 (td div 6),
            max 2 (td div 4),
            max 4 (td div 2),
            max 3 (int_times td (float_literal 4 10)),
            max 6 (int_times td (float_literal 75 100))]. 0 \<le> off \<and> off \<le> max td 6"
  using int_times_literal(5,6) [OF assms] div_le_self_int [OF assms(1), of 2] div_le_self_int [OF assms(1), of 4] div_le_self_int [OF assms(1), of 6]
  by (simp, (intro conjI; linarith))

lemma event_view_deadlines:
  assumes "event_tasks s f td = Inr ts"
  shows "map (add_days s) [max 1 (td div 6),
            max 2 (td div 4),
            max 4 (td div 2),
            max 3 (int_times td (float_literal 4 10)),
            max 6 (int_times td (float_literal 75 100))] @ [Inr f]
     = map (\<lambda>t. Inr (deadline t)) ts"
  using view_deadlines [OF event_tasks_view [OF assms]] by simp

lemma event_deadlines:
  assumes "event_tasks s (s + td) td = Inr ts" and "t \<in> set ts" and "0 \<le> td" and "td < 2 ^ 53"
  shows "s \<le> deadline t \<and> deadline t \<le> s + max td 6"
  using deadline_bounds [OF event_view_deadlines [OF assms(1)] assms(2) event_offsets [OF assms(3,4)]]
    assms(3)
  by simp

lemma event_last_deadline:
  assumes "event_tasks s f td = Inr ts"
  shows "ts \<noteq> [] \<and> deadline (last ts) = f"
  by (rule last_deadline [OF event_view_deadlines [OF assms]])

lemma event_floor_in_range:
  assumes "event_tasks s f td = Inr ts"
  shows "s + 6 \<le> MAXORDINAL"
proof -
  have "s + max 6 (int_times td (float_literal 75 100)) \<le> MAXORDINAL"
    by (rule offsets_in_range [OF event_view_deadlines [OF assms]]) simp
  then show ?thesis by linarith
qed

lemma event_returns:
  assumes "0 < s" and "0 \<le> td" and "td < 2 ^ 53" and "s + max td 6 \<le> MAXORDINAL"
  shows "\<exists>ts. event_tasks s f td = Inr ts"
proof -
  have "\<forall>x\<in>set (map (add_days s) [max 1 (td div 6),
            max 2 (td div 4),
            max 4 (td div 2),
            max 3 (int_times td (float_literal 4 10)),
            max 6 (int_times td (float_literal 75 100))]). isl x = False"
    by (rule offsets_return [OF event_offsets [OF assms(2,3)] assms(1,4)])
  then show ?thesis by (intro event_tasks_returns) simp
qed

lemma learning_offsets:
  assumes "0 \<le> td" and "td < 2 ^ 53"
  shows "\<forall>off\<in>set [max 2 (td div 5),
            max 6 (int_times td (float_literal 6 10)),
            max 10 (int_times td (float_literal 8 10))]. 0 \<le> off \<and> off \<le> max td 10"
  using int_times_literal(1,7) [OF assms] div_le_self_int [OF assms(1), of 5]
  by (simp, (intro conjI; linarith))

lemma learning_view_deadlines:
  assumes "learning_tasks subject s f td = Inr ts"
  shows "map (add_days s) [max 2 (td div 5),
            max 6 (int_times td (float_literal 6 10)),
            max 10 (int_times td (float_literal 8 10))] @ [Inr f]
     = map (\<lambda>t. Inr (deadline t)) ts"
  using view_deadlines [OF learning_tasks_view [OF assms]] by simp

lemma learning_deadlines:
  assumes "learning_tasks subject s (s + td) td = Inr ts" and "t \<in> set ts" and "0 \<le> td" and "td < 2 ^ 53"
  shows "s \<le> deadline t \<and> deadline t \<le> s + max td 10"
  using deadline_bounds [OF learning_view_deadlines [OF assms(1)] assms(2) learning_offsets [OF assms(3,4)]]
    assms(3)
  by simp

lemma learning_last_deadline:
  assumes "learning_tasks subject s f td = Inr ts"
  shows "ts \<noteq> [] \<and> deadline (last ts) = f"
  by (rule last_deadline [OF learning_view_deadlines [OF assms]])

lemma learning_floor_in_range:
  assumes "learning_tasks subject s f td = Inr ts"
  shows "s + 10 \<le> MAXORDINAL"
proof -
  have "s + max 10 (int_times td (float_literal 8 10)) \<le> MAXORDINAL"
    by (rule offsets_in_range [OF learning_view_deadlines [OF assms]]) simp
  then show ?thesis by linarith
qed

lemma learning_returns:
  assumes "0 < s" and "0 \<le> td" and "td < 2 ^ 53" and "s + max td 10 \<le> MAXORDINAL"
  shows "\<exists>ts. learning_tasks subject s f td = Inr ts"
proof -
  have "\<forall>x\<in>set (map (add_days s) [max 2 (td div 5),
            max 6 (int_times td (float_literal 6 10)),
            max 10 (int_times td (float_literal 8 10))]). isl x = False"
    by (rule offsets_return [OF learning_offsets [OF assms(2,3)] assms(1,4)])
  then show ?thesis by (intro learning_tasks_returns) simp
qed

lemma research_offsets:
  assumes "0 \<le> td" and "td < 2 ^ 53"
  shows "\<forall>off\<in>set [max 2 (td div 4),
            max 4 (td div 3),
            max 8 (int_times td (float_literal 65 100)),
            max 11 (int_times td (float_literal 85 100))]. 0 \<le> off \<and> off \<le> max td 11"
  using int_times_literal(3,8) [OF assms] div_le_self_int [OF assms(1), of 3] div_le_self_int [OF assms(1), of 4]
  by (simp, (intro conjI; linarith))

lemma research_view_deadlines:
  assumes "research_tasks s f td = Inr ts"
  shows "map (add_days s) [max 2 (td div 4),
            max 4 (td div 3),
            max 8 (int_times td (float_literal 65 100)),
            max 11 (int_times td (float_literal 85 100))] @ [Inr f]
     = map (\<lambda>t. Inr (deadline t)) ts"
  using view_deadlines [OF research_tasks_view [OF assms]] by simp

lemma research_deadlines:
  assumes "research_tasks s (s + td) td = Inr ts" and "t \<in> set ts" and "0 \<le> td" and "td < 2 ^ 53"
  shows "s \<le> deadline t \<and> deadline t \<le> s + max td 11"
  using deadline_bounds [OF research_view_deadlines [OF assms(1)] assms(2) research_offsets [OF assms(3,4)]]
    assms(3)
  by simp

lemma research_last_deadline:
  assumes "research_tasks s f td = Inr ts"
  shows "ts \<noteq> [] \<and> deadline (last ts) = f"
  by (rule last_deadline [OF research_view_deadlines [OF assms]])

lemma research_floor_in_range:
  assumes "research_tasks s f td = Inr ts"
  shows "s + 11 \<le> MAXORDINAL"
proof -
  have "s + max 11 (int_times td (float_literal 85 100)) \<le> MAXORDINAL"
    by (rule offsets_in_range [OF research_view_deadlines [OF assms]]) simp
  then show ?thesis by linarith
qed

lemma research_returns:
  assumes "0 < s" and "0 \<le> td" and "td < 2 ^ 53" and "s + max td 11 \<le> MAXORDINAL"
  shows "\<exists>ts. research_tasks s f td = Inr ts"
proof -
  have "\<forall>x\<in>set (map (add_days s) [max 2 (td div 4),
            max 4 (td div 3),
            max 8 (int_times td (float_literal 65 100)),
            max 11 (int_times td (float_literal 85 100))]). isl x = False"
    by (rule offsets_return [OF research_offsets [OF assms(2,3)] assms(1,4)])
  then show ?thesis by (intro research_tasks_returns) simp
qed

section \<open>When the generator returns a plan\<close>

lemma true_div_returns: "b \<noteq> 0 \<Longrightarrow> \<exists>x. true_div a b = Inr x"
  by (simp add: true_div_def Let_def)

lemma num_tasks_range:
  "4 \<le> max 4 (min 7 (td div 3)) \<and> max 4 (min 7 (td div 3)) \<le> (7::int)"
  by simp

lemma generic_deadlines:
  assumes "generic_tasks goal s td = Inr ts" and "t \<in> set ts" and "0 \<le> td" and "td < 2 ^ 53"
  shows "s \<le> deadline t \<and> deadline t \<le> s + td"
proof -
  let ?n = "max 4 (min 7 (td div 3))"
  from generic_tasks_view [OF assms(1)] obtain dur where
    dur: "true_div td ?n = Inr dur"
    and all: "list_all2 (\<lambda>i t. generic_task goal s dur i = Inr t) [0..?n - 1] ts"
    by blast
  from list_all2_in_set2 [OF all assms(2)] obtain i where
    i: "i \<in> set [0..?n - 1]" and g: "generic_task goal s dur i = Inr t" by blast
  have i': "0 \<le> i" "i < ?n" using i by auto
  from generic_offset_le [OF assms(3,4) num_tasks_range [THEN conjunct1]
      num_tasks_range [THEN conjunct2] i' dur]
  have "0 \<le> int_times i dur" "int_times i dur \<le> td" by simp_all
  moreover from generic_task_Inr [OF g] have "deadline t = s + int_times i dur"
    by (simp add: add_days_Inr)
  ultimately show ?thesis by simp
qed

lemma generic_returns:
  assumes "0 < s" and "0 \<le> td" and "td < 2 ^ 53" and "s + td \<le> MAXORDINAL"
  shows "\<exists>ts. generic_tasks goal s td = Inr ts"
proof -
  let ?n = "max 4 (min 7 (td div 3))"
  have "?n \<noteq> 0" by simp
  from true_div_returns [OF this] obtain dur where dur: "true_div td ?n = Inr dur" by blast
  have "\<exists>v. generic_task goal s dur i = Inr v" if "i \<in> set [0..?n - 1]" for i
  proof -
    have i': "0 \<le> i" "i < ?n" using that by auto
    from generic_offset_le [OF assms(2,3) num_tasks_range [THEN conjunct1]
        num_tasks_range [THEN conjunct2] i' dur]
    have "0 \<le> int_times i dur" "int_times i dur \<le> td" by simp_all
    then have "add_days s (int_times i dur) = Inr (s + int_times i dur)"
      using assms(1,4) by (intro add_days_returns) simp_all
    then show ?thesis by (simp add: generic_task_def Let_def new_task_def)
  qed
  then have "\<exists>vs. sequence (map (generic_task goal s dur) [0..?n - 1]) = Inr vs"
    by (intro sequence_map_returns) blast
  then show ?thesis using dur by (simp add: generic_tasks_def Let_def)
qed

lemma select_tasks_deadlines:
  assumes "select_tasks goal s (s + td) td = Inr ts" and "t \<in> set ts"
    and "0 \<le> td" and "td < 2 ^ 53"
  shows "s \<le> deadline t \<and> deadline t \<le> s + max td (largest_floor (classify (lower goal)))"
proof (cases "classify (lower goal)")
  case Product
  then have "product_tasks s (s + td) td = Inr ts" using assms(1) by (simp add: select_tasks_def)
  from product_deadlines [OF this assms(2,3,4)] show ?thesis using Product by simp
next
  case Event
  then have "event_tasks s (s + td) td = Inr ts" using assms(1) by (simp add: select_tasks_def)
  from event_deadlines [OF this assms(2,3,4)] show ?thesis using Event by simp
next
  case Learning
  then have "learning_tasks (find_subject (split goal)) s (s + td) td = Inr ts"
    using assms(1) by (simp add: select_tasks_def)
  from learning_deadlines [OF this assms(2,3,4)] show ?thesis using Learning by simp
next
  case Research
  then have "research_tasks s (s + td) td = Inr ts" using assms(1) by (simp add: select_tasks_def)
  from research_deadlines [OF this assms(2,3,4)] show ?thesis using Research by simp
next
  case Generic
  then have "generic_tasks goal s td = Inr ts" using assms(1) by (simp add: select_tasks_def)
  from generic_deadlines [OF this assms(2,3,4)] show ?thesis using Generic assms(3) by simp
qed

lemma select_tasks_returns:
  assumes "0 < s" and "0 \<le> td" and "td < 2 ^ 53"
    and "s + max td (largest_floor (classify (lower goal))) \<le> MAXORDINAL"
  shows "\<exists>ts. select_tasks goal s f td = Inr ts"
proof (cases "classify (lower goal)")
  case Product
  then show ?thesis using product_returns [OF assms(1,2,3), of f] assms(4)
    by (simp add: select_tasks_def)
next
  case Event
  then show ?thesis using event_returns [OF assms(1,2,3), of f] assms(4)
    by (simp add: select_tasks_def)
next
  case Learning
  then show ?thesis using learning_returns [OF assms(1,2,3), of _ f] assms(4)
    by (simp add: select_tasks_def)
next
  case Research
  then show ?thesis using research_returns [OF assms(1,2,3), of f] assms(4)
    by (simp add: select_tasks_def)
next
  case Generic
  then show ?thesis using generic_returns [OF assms(1,2,3), of goal] assms(2,4)
    by (simp add: select_tasks_def)
qed

lemma select_tasks_floor_in_range:
  assumes "select_tasks goal s f td = Inr ts" and "s \<le> MAXORDINAL"
  shows "s + largest_floor (classify (lower goal)) \<le> MAXORDINAL"
proof (cases "classify (lower goal)")
  case Product
  then show ?thesis using assms(1) product_floor_in_range [of s f td ts]
    by (simp add: select_tasks_def)
next
  case Event
  then show ?thesis using assms(1) event_floor_in_range [of s f td ts]
    by (simp add: select_tasks_def)
next
  case Learning
  then show ?thesis using assms(1) learning_floor_in_range [of _ s f td ts]
    by (simp add: select_tasks_def)
next
  case Research
  then show ?thesis using assms(1) research_floor_in_range [of s f td ts]
    by (simp add: select_tasks_def)
next
  case Generic
  then show ?thesis using assms(2) by simp
qed

lemma select_tasks_last_deadline:
  assumes "select_tasks goal s f td = Inr ts" and "classify (lower goal) \<noteq> Generic"
  shows "ts \<noteq> [] \<and> deadline (last ts) = f"
proof (cases "classify (lower goal)")
  case Product
  then show ?thesis using assms(1) product_last_deadline [of s f td ts]
    by (simp add: select_tasks_def)
next
  case Event
  then show ?thesis using assms(1) event_last_deadline [of s f td ts]
    by (simp add: select_tasks_def)
next
  case Learning
  then show ?thesis using assms(1) learning_last_deadline [of _ s f td ts]
    by (simp add: select_tasks_def)
next
  case Research
  then show ?thesis using assms(1) research_last_deadline [of s f td ts]
    by (simp add: select_tasks_def)
next
  case Generic
  then show ?thesis using assms(2) by simp
qed

lemma create_milestones_returns:
  assumes "0 < s" and "0 \<le> td" and "s + td \<le> MAXORDINAL"
  shows "\<exists>ms. create_milestones ts s f td = Inr ms"
proof -
  have a: "0 \<le> td div 3" "td div 3 \<le> td" using div_le_self_int [OF assms(2), of 3] by simp_all
  have "0 \<le> td * 2 div 3" using assms(2) by (simp add: pos_imp_zdiv_nonneg_iff)
  moreover have "td * 2 div 3 \<le> td" using assms(2) by linarith
  ultimately have b: "0 \<le> td * 2 div 3" "td * 2 div 3 \<le> td" by simp_all
  have "add_days s (td div 3) = Inr (s + td div 3)"
    using assms a by (intro add_days_returns) simp_all
  moreover have "add_days s (td * 2 div 3) = Inr (s + td * 2 div 3)"
    using assms b by (intro add_days_returns) simp_all
  ultimately show ?thesis by (simp add: create_milestones_def Let_def)
qed

text \<open>
  The rule-based generator returns a plan exactly when the last day it computes, the end
  date or a floor deadline beyond it, is a date.
\<close>

lemma fallback_returns_iff:
  assumes "0 < now" and "extract_timeframe goal = Inr td"
  shows "(\<exists>p. fallback_plan_generation now goal = Inr p) \<longleftrightarrow>
         now + max td (largest_floor (classify (lower goal))) \<le> MAXORDINAL"
proof
  assume "\<exists>p. fallback_plan_generation now goal = Inr p"
  then obtain p where p: "fallback_plan_generation now goal = Inr p" by blast
  from fallback_Inr [OF p] assms(2) have
    e: "add_days now td = Inr (end_date (timeline p))"
    and ts: "select_tasks goal now (end_date (timeline p)) td = Inr (tasks p)"
    by auto
  from e have le: "now + td \<le> MAXORDINAL" by (simp add: add_days_Inr)
  then have "now \<le> MAXORDINAL" using extract_timeframe_nonneg [OF assms(2)] by linarith
  from select_tasks_floor_in_range [OF ts this] le
  show "now + max td (largest_floor (classify (lower goal))) \<le> MAXORDINAL"
    by simp
next
  assume le: "now + max td (largest_floor (classify (lower goal))) \<le> MAXORDINAL"
  have td0: "0 \<le> td" by (rule extract_timeframe_nonneg [OF assms(2)])
  have le': "now + td \<le> MAXORDINAL" using le by simp
  then have "td \<le> 3652059" using assms(1) by (simp add: MAXORDINAL_def)
  then have td53: "td < 2 ^ 53" by simp
  have e: "add_days now td = Inr (now + td)" by (rule add_days_returns [OF assms(1) td0 le'])
  from select_tasks_returns [OF assms(1) td0 td53 le] obtain ts where
    ts: "select_tasks goal now (now + td) td = Inr ts" by blast
  from create_milestones_returns [OF assms(1) td0 le'] obtain ms where
    ms: "create_milestones ts now (now + td) td = Inr ms" by blast
  show "\<exists>p. fallback_plan_generation now goal = Inr p"
    by (simp add: fallback_plan_generation_def Let_def assms(2) e ts ms)
qed

section \<open>Which exception is raised\<close>

lemma add_days_Inl: "add_days d n = Inl e \<Longrightarrow> e = OverflowError"
  by (auto simp: add_days_def timedelta_def split: if_splits)

lemma sequence_Inl: "sequence xs = Inl e \<Longrightarrow> Inl e \<in> set xs"
  by (induction xs) (auto split: sum.splits)

lemma new_task_Inl: "Inl e = new_task i t d h deps dl p c \<Longrightarrow> dl = Inl e"
  by (cases dl) (simp_all add: new_task_def)

lemma product_tasks_Inl:
  assumes "product_tasks s f td = Inl e"
  shows "e = OverflowError"
  using sequence_Inl [OF assms [unfolded product_tasks_def]]
  by (auto dest!: new_task_Inl add_days_Inl)

lemma event_tasks_Inl:
  assumes "event_tasks s f td = Inl e"
  shows "e = OverflowError"
  using sequence_Inl [OF assms [unfolded event_tasks_def]]
  by (auto dest!: new_task_Inl add_days_Inl)

lemma learning_tasks_Inl:
  assumes "learning_tasks subject s f td = Inl e"
  shows "e = OverflowError"
  using sequence_Inl [OF assms [unfolded learning_tasks_def]]
  by (auto dest!: new_task_Inl add_days_Inl)

lemma research_tasks_Inl:
  assumes "research_tasks s f td = Inl e"
  shows "e = OverflowError"
  using sequence_Inl [OF assms [unfolded research_tasks_def]]
  by (auto dest!: new_task_Inl add_days_Inl)

lemma generic_tasks_Inl:
  assumes "generic_tasks goal s td = Inl e"
  shows "e = OverflowError"
proof -
  let ?n = "max 4 (min 7 (td div 3))"
  have "?n \<noteq> 0" by simp
  from true_div_returns [OF this] obtain dur where dur: "true_div td ?n = Inr dur" by blast
  then have "sequence (map (generic_task goal s dur) [0..?n - 1]) = Inl e"
    using assms by (simp add: generic_tasks_def Let_def)
  from sequence_Inl [OF this] obtain i where "Inl e = generic_task goal s dur i" by auto
  then have "add_days s (int_times i dur) = Inl e"
    unfolding generic_task_def Let_def by (rule new_task_Inl)
  then show ?thesis by (rule add_days_Inl)
qed

lemma select_tasks_Inl:
  assumes "select_tasks goal s f td = Inl e"
  shows "e = OverflowError"
  using assms product_tasks_Inl event_tasks_Inl learning_tasks_Inl research_tasks_Inl
    generic_tasks_Inl
  by (cases "classify (lower goal)") (simp_all add: select_tasks_def)

lemma create_milestones_Inl:
  assumes "create_milestones ts s f td = Inl e"
  shows "e = OverflowError"
  using assms add_days_Inl unfolding create_milestones_def Let_def
  by (auto split: if_splits sum.splits)

lemma fallback_Inl:
  assumes "fallback_plan_generation now goal = Inl e" and "extract_timeframe goal = Inr td"
  shows "e = OverflowError"
  using assms add_days_Inl select_tasks_Inl create_milestones_Inl
  unfolding fallback_plan_generation_def Let_def
  by (auto split: sum.splits)

lemma fallback_no_timeframe:
  assumes "extract_timeframe goal = Inl e"
  shows "fallback_plan_generation now goal = Inl e"
  using assms by (simp add: fallback_plan_generation_def)

section \<open>Dependencies and milestones\<close>

lemma create_milestones_names:
  assumes "create_milestones ts s f td = Inr ms"
  shows "map name ms =
           (if 3 < length ts
            then [''Project Kickoff & Planning Complete'', ''Initial Phase Complete'',
                  ''Development Phase Complete'', ''Project Completion & Delivery'']
            else [''Project Kickoff & Planning Complete'', ''Project Completion & Delivery''])"
  using assms unfolding create_milestones_def Let_def
  by (auto split: sum.splits if_splits)

lemma party_plan_returns:
  "\<not> isl (fallback_plan_generation 739925 ''organise a party in 2 weeks'')"
  by code_simp

lemma party_plan_dependencies:
  "map_sum id (\<lambda>p. map dependencies (tasks p))
     (fallback_plan_generation 739925 ''organise a party in 2 weeks'')
   = Inr [[], [1], [2], [1], [2, 3], [3, 4, 5]]"
  by code_simp

lemma trip_plan_returns:
  "\<not> isl (fallback_plan_generation 739925 ''plan a trip'')"
  by code_simp

lemma thesis_plan_returns:
  "\<not> isl (fallback_plan_generation 739925 ''write my thesis in 6 weeks'')"
  by code_simp

text \<open>
  C6. In every plan the rule-based generator returns, whatever the goal and the template
  family, each id in a task's dependencies is positive and strictly smaller than the
  task's own id: there is no forward reference, no self-reference and hence no cycle.
\<close>

theorem dependencies_reference_earlier_tasks:
  assumes "fallback_plan_generation now goal = Inr p"
    and "t \<in> set (tasks p)" and "d \<in> set (dependencies t)"
  shows "0 < d \<and> d < task_id t"
proof -
  from fallback_Inr [OF assms(1)] obtain td where
    "select_tasks goal now (end_date (timeline p)) td = Inr (tasks p)" by blast
  then show ?thesis by (rule select_tasks_dependencies [OF _ assms(2,3)])
qed

theorem dependencies_reference_earlier_tasks_witness:
  "\<exists>p t d. fallback_plan_generation 739925 ''organise a party in 2 weeks'' = Inr p \<and>
     t \<in> set (tasks p) \<and> d \<in> set (dependencies t) \<and> 0 < d \<and> d < task_id t"
proof -
  obtain p where p: "fallback_plan_generation 739925 ''organise a party in 2 weeks'' = Inr p"
    using party_plan_returns
    by (cases "fallback_plan_generation 739925 ''organise a party in 2 weeks''") auto
  have deps: "map dependencies (tasks p) = [[], [1], [2], [1], [2, 3], [3, 4, 5]]"
    using party_plan_dependencies p by simp
  have "length (map dependencies (tasks p)) = 6" unfolding deps by simp
  then have len: "length (tasks p) = 6" by simp
  have "dependencies (tasks p ! 1) = map dependencies (tasks p) ! 1"
    using len by simp
  then have d: "1 \<in> set (dependencies (tasks p ! 1))" using deps by simp
  have t: "tasks p ! 1 \<in> set (tasks p)" using len by simp
  from dependencies_reference_earlier_tasks [OF p t d] p t d show ?thesis by blast
qed

text \<open>
  C10. Every plan of the rule-based generator has exactly four milestones: the families
  yield 8 (Product), 6 (Event), 4 (Learning), 5 (Research) and, for Generic,
  \<^verbatim>\<open>max(4, min(7, total_days // 3))\<close> tasks, always more than three, so the two intermediate
  milestones are always added between the kickoff and the completion milestone.
\<close>

theorem plan_has_four_milestones:
  assumes "fallback_plan_generation now goal = Inr p"
  shows "\<exists>total_days. extract_timeframe goal = Inr total_days \<and>
         int (length (tasks p)) =
           (case classify (lower goal) of
              Product \<Rightarrow> 8 | Event \<Rightarrow> 6 | Learning \<Rightarrow> 4 | Research \<Rightarrow> 5
            | Generic \<Rightarrow> max 4 (min 7 (total_days div 3))) \<and>
         3 < length (tasks p) \<and> length (milestones (timeline p)) = 4"
proof -
  from fallback_Inr [OF assms] obtain td where
    td: "extract_timeframe goal = Inr td"
    and ts: "select_tasks goal now (end_date (timeline p)) td = Inr (tasks p)"
    and ms: "create_milestones (tasks p) now (end_date (timeline p)) td
           = Inr (milestones (timeline p))"
    by blast
  have len: "3 < length (tasks p)" by (rule select_tasks_length [OF ts])
  have "length (map tasks_completed (milestones (timeline p))) = 4"
    unfolding create_milestones_Inr(1) [OF ms] using len by simp
  then show ?thesis using len select_tasks_count [OF ts] td by simp
qed

theorem plan_has_four_milestones_witness:
  "\<exists>p. fallback_plan_generation 739925 ''plan a trip'' = Inr p \<and>
     length (tasks p) = 4 \<and> length (milestones (timeline p)) = 4"
proof -
  obtain p where p: "fallback_plan_generation 739925 ''plan a trip'' = Inr p"
    using trip_plan_returns by (cases "fallback_plan_generation 739925 ''plan a trip''") auto
  have "classify (lower ''plan a trip'') = Generic" and "extract_timeframe ''plan a trip'' = Inr 14"
    by code_simp+
  with plan_has_four_milestones [OF p]
  have "length (tasks p) = 4 \<and> length (milestones (timeline p)) = 4" by simp
  then show ?thesis by (intro exI [of _ p] conjI p) simp_all
qed

text \<open>
  C7. Along the milestones of a generated plan the sets of completed tasks grow: the
  kickoff milestone has none, the two intermediate milestones have the first third and
  the first two thirds of the task list (by position, the counts rounded down), the
  completion milestone has every task, and each set is contained in the next. The
  milestone synthesizer adds the two intermediate milestones only to a task list of more
  than three tasks; otherwise it yields the kickoff and the completion milestone alone.
\<close>

theorem completed_tasks_grow:
  assumes "fallback_plan_generation now goal = Inr p"
  shows "map name (milestones (timeline p)) =
           [''Project Kickoff & Planning Complete'', ''Initial Phase Complete'',
            ''Development Phase Complete'', ''Project Completion & Delivery''] \<and>
         map tasks_completed (milestones (timeline p)) =
           [[], map task_id (take (length (tasks p) div 3) (tasks p)),
            map task_id (take (length (tasks p) * 2 div 3) (tasks p)),
            map task_id (tasks p)] \<and>
         (\<forall>i. Suc i < length (milestones (timeline p)) \<longrightarrow>
            set (tasks_completed (milestones (timeline p) ! i))
              \<subseteq> set (tasks_completed (milestones (timeline p) ! Suc i))) \<and>
         (\<forall>ts s f td ms. create_milestones ts s f td = Inr ms \<longrightarrow>
            map tasks_completed ms =
              (if 3 < length ts
               then [[], map task_id (take (length ts div 3) ts),
                     map task_id (take (length ts * 2 div 3) ts), map task_id ts]
               else [[], map task_id ts]))"
proof -
  from fallback_Inr [OF assms] obtain td where
    ts: "select_tasks goal now (end_date (timeline p)) td = Inr (tasks p)"
    and ms: "create_milestones (tasks p) now (end_date (timeline p)) td
           = Inr (milestones (timeline p))"
    by blast
  have len: "3 < length (tasks p)" by (rule select_tasks_length [OF ts])
  have a: "map name (milestones (timeline p)) =
      [''Project Kickoff & Planning Complete'', ''Initial Phase Complete'',
       ''Development Phase Complete'', ''Project Completion & Delivery'']"
    using create_milestones_names [OF ms] len by simp
  have b: "map tasks_completed (milestones (timeline p)) =
           [[], map task_id (take (length (tasks p) div 3) (tasks p)),
            map task_id (take (length (tasks p) * 2 div 3) (tasks p)),
            map task_id (tasks p)]"
    using create_milestones_Inr(1) [OF ms] len by simp
  have c: "\<forall>i. Suc i < length (milestones (timeline p)) \<longrightarrow>
            set (tasks_completed (milestones (timeline p) ! i))
              \<subseteq> set (tasks_completed (milestones (timeline p) ! Suc i))"
    using completed_chain [OF create_milestones_Inr(1) [OF ms]] by blast
  have d: "\<forall>ts s f td ms. create_milestones ts s f td = Inr ms \<longrightarrow>
            map tasks_completed ms =
              (if 3 < length ts
               then [[], map task_id (take (length ts div 3) ts),
                     map task_id (take (length ts * 2 div 3) ts), map task_id ts]
               else [[], map task_id ts])"
    using create_milestones_Inr(1) by blast
  show ?thesis by (intro conjI a b c d)
qed

theorem completed_tasks_grow_witness:
  "\<exists>p. fallback_plan_generation 739925 ''write my thesis in 6 weeks'' = Inr p \<and>
     map tasks_completed (milestones (timeline p)) =
       [[], map task_id (take (length (tasks p) div 3) (tasks p)),
        map task_id (take (length (tasks p) * 2 div 3) (tasks p)),
        map task_id (tasks p)] \<and>
     set (tasks_completed (milestones (timeline p) ! 1))
       \<subseteq> set (tasks_completed (milestones (timeline p) ! 2)) \<and>
     create_milestones [] 739925 739930 5
       = Inr [\<lparr>name = ''Project Kickoff & Planning Complete'', date = 739925, tasks_completed = []\<rparr>,
              \<lparr>name = ''Project Completion & Delivery'', date = 739930, tasks_completed = []\<rparr>]"
proof -
  obtain p where p: "fallback_plan_generation 739925 ''write my thesis in 6 weeks'' = Inr p"
    using thesis_plan_returns
    by (cases "fallback_plan_generation 739925 ''write my thesis in 6 weeks''") auto
  note w = completed_tasks_grow [OF p]
  from w have b: "map tasks_completed (milestones (timeline p)) =
       [[], map task_id (take (length (tasks p) div 3) (tasks p)),
        map task_id (take (length (tasks p) * 2 div 3) (tasks p)),
        map task_id (tasks p)]"
    by (rule conjunct1 [OF conjunct2])
  from w have c: "\<forall>i. Suc i < length (milestones (timeline p)) \<longrightarrow>
            set (tasks_completed (milestones (timeline p) ! i))
              \<subseteq> set (tasks_completed (milestones (timeline p) ! Suc i))"
    by (rule conjunct1 [OF conjunct2 [OF conjunct2]])
  have "length (map tasks_completed (milestones (timeline p))) = 4" unfolding b by simp
  then have l: "Suc 1 < length (milestones (timeline p))" by simp
  have "set (tasks_completed (milestones (timeline p) ! 1))
       \<subseteq> set (tasks_completed (milestones (timeline p) ! Suc 1))"
    by (rule mp [OF spec [OF c] l])
  then have e: "set (tasks_completed (milestones (timeline p) ! 1))
       \<subseteq> set (tasks_completed (milestones (timeline p) ! 2))"
    by (simp only: Suc_1)
  have f: "create_milestones [] 739925 739930 5
       = Inr [\<lparr>name = ''Project Kickoff & Planning Complete'', date = 739925, tasks_completed = []\<rparr>,
              \<lparr>name = ''Project Completion & Delivery'', date = 739930, tasks_completed = []\<rparr>]"
    by (simp add: create_milestones_def)
  show ?thesis
    by (rule exI [of _ p]) (intro conjI p b e f)
qed

section \<open>The timeframe extractor finds the first occurrence\<close>

lemma space_not_digit: "is_space c \<Longrightarrow> \<not> is_digit c"
  by (auto simp: is_space_def is_digit_def Let_def)

lemma match_here_sound:
  assumes "match_here unit s = Some ds"
  shows "occurs_at unit s 0 ds"
proof -
  let ?r = "dropWhile is_digit s"
  from assms have ds: "ds = takeWhile is_digit s" and ne: "ds \<noteq> []"
    and pre: "prefix unit (dropWhile is_space ?r)"
    by (auto simp: match_here_def Let_def split: if_splits)
  from pre obtain tl where tl: "dropWhile is_space ?r = unit @ tl"
    by (auto simp: prefix_def)
  have "s = ds @ ?r" by (simp add: ds)
  also have "?r = takeWhile is_space ?r @ dropWhile is_space ?r" by simp
  finally have "s = (ds @ takeWhile is_space ?r @ unit) @ tl" using tl by simp
  then have "prefix (ds @ takeWhile is_space ?r @ unit) s" by (metis prefixI)
  moreover have "\<forall>c\<in>set (takeWhile is_space ?r). is_space c"
    by (meson set_takeWhileD)
  moreover have "\<forall>c\<in>set ds. is_digit c" unfolding ds by (meson set_takeWhileD)
  ultimately show ?thesis unfolding occurs_at_def using ne by auto
qed

lemma match_here_complete:
  assumes lf: "letter_first unit" and occ: "occurs_at unit s 0 ds"
  shows "match_here unit s = Some ds"
proof -
  from occ obtain ws tl where ne: "ds \<noteq> []" and dig: "\<forall>c\<in>set ds. is_digit c"
    and ws: "\<forall>c\<in>set ws. is_space c" and s: "s = ds @ ws @ unit @ tl"
    by (auto simp: occurs_at_def prefix_def)
  from lf obtain u us where u: "unit = u # us" "\<not> is_digit u" "\<not> is_space u"
    by (cases unit) (auto simp: letter_first_def)
  have nd: "\<not> is_digit (hd (ws @ unit @ tl))"
    using ws u space_not_digit by (cases ws) auto
  have ne2: "ws @ unit @ tl \<noteq> []" using u by simp
  have t: "takeWhile is_digit s = ds"
    unfolding s using dig nd ne2
    by (metis takeWhile_append2 takeWhile_eq_Nil_iff append_Nil2 list.collapse takeWhile.simps(2) )
  have d: "dropWhile is_digit s = ws @ unit @ tl"
    using t s by (metis append_same_eq takeWhile_dropWhile_id same_append_eq)
  have d2: "dropWhile is_space (ws @ unit @ tl) = unit @ tl"
    using ws u by (simp add: dropWhile_append2)
  show ?thesis
    by (simp add: match_here_def Let_def t d d2 ne)
qed

lemma match_here_iff:
  "letter_first unit \<Longrightarrow> match_here unit s = Some ds \<longleftrightarrow> occurs_at unit s 0 ds"
  using match_here_sound match_here_complete by blast

lemma occurs_at_Suc: "occurs_at unit (c # cs) (Suc p) ds \<longleftrightarrow> occurs_at unit cs p ds"
  by (simp add: occurs_at_def)

lemma occurs_at_Nil: "\<not> occurs_at unit [] p ds"
  by (simp add: occurs_at_def)

lemma re_search_None:
  "letter_first unit \<Longrightarrow> re_search unit s = None \<longleftrightarrow> no_occurrence unit s"
proof (induction s)
  case Nil
  then show ?case by (simp add: no_occurrence_def occurs_at_Nil)
next
  case (Cons c cs)
  have split: "no_occurrence unit (c # cs) \<longleftrightarrow>
      (\<forall>ds. \<not> occurs_at unit (c # cs) 0 ds) \<and> no_occurrence unit cs"
    unfolding no_occurrence_def
    by (metis occurs_at_Suc not0_implies_Suc)
  show ?case
  proof (cases "match_here unit (c # cs)")
    case None
    then have "\<forall>ds. \<not> occurs_at unit (c # cs) 0 ds"
      using match_here_iff [OF Cons.prems] by (metis option.distinct(1))
    then show ?thesis using None Cons split by simp
  next
    case (Some ds)
    then have "occurs_at unit (c # cs) 0 ds" by (rule match_here_sound)
    then show ?thesis using Some split by auto
  qed
qed

lemma first_occurrence_Cons:
  "first_occurrence unit (c # cs) ds \<longleftrightarrow>
     occurs_at unit (c # cs) 0 ds \<or>
     ((\<forall>ds'. \<not> occurs_at unit (c # cs) 0 ds') \<and> first_occurrence unit cs ds)"
proof
  assume "first_occurrence unit (c # cs) ds"
  then obtain p where p: "occurs_at unit (c # cs) p ds"
    and m: "\<forall>q<p. \<forall>ds'. \<not> occurs_at unit (c # cs) q ds'"
    by (auto simp: first_occurrence_def)
  show "occurs_at unit (c # cs) 0 ds \<or>
     ((\<forall>ds'. \<not> occurs_at unit (c # cs) 0 ds') \<and> first_occurrence unit cs ds)"
  proof (cases p)
    case 0
    then show ?thesis using p by simp
  next
    case (Suc p')
    then have "occurs_at unit cs p' ds" using p by (simp add: occurs_at_Suc)
    moreover have "\<forall>q<p'. \<forall>ds'. \<not> occurs_at unit cs q ds'"
      using m Suc by (metis occurs_at_Suc Suc_less_eq)
    moreover have "\<forall>ds'. \<not> occurs_at unit (c # cs) 0 ds'" using m Suc by simp
    ultimately show ?thesis unfolding first_occurrence_def by blast
  qed
next
  assume "occurs_at unit (c # cs) 0 ds \<or>
     ((\<forall>ds'. \<not> occurs_at unit (c # cs) 0 ds') \<and> first_occurrence unit cs ds)"
  then show "first_occurrence unit (c # cs) ds"
  proof
    assume "occurs_at unit (c # cs) 0 ds"
    then show ?thesis unfolding first_occurrence_def by (metis not_less_zero)
  next
    assume a: "(\<forall>ds'. \<not> occurs_at unit (c # cs) 0 ds') \<and> first_occurrence unit cs ds"
    then obtain p where p: "occurs_at unit cs p ds"
      and m: "\<forall>q<p. \<forall>ds'. \<not> occurs_at unit cs q ds'"
      by (auto simp: first_occurrence_def)
    have "occurs_at unit (c # cs) (Suc p) ds" using p by (simp add: occurs_at_Suc)
    moreover have "\<forall>q<Suc p. \<forall>ds'. \<not> occurs_at unit (c # cs) q ds'"
    proof (intro allI impI)
      fix q ds' assume "q < Suc p"
      then show "\<not> occurs_at unit (c # cs) q ds'"
        using a m by (cases q) (auto simp: occurs_at_Suc)
    qed
    ultimately show ?thesis unfolding first_occurrence_def by blast
  qed
qed

lemma re_search_Some:
  "letter_first unit \<Longrightarrow> re_search unit s = Some ds \<longleftrightarrow> first_occurrence unit s ds"
proof (induction s)
  case Nil
  then show ?case by (simp add: first_occurrence_def occurs_at_Nil)
next
  case (Cons c cs)
  show ?case
  proof (cases "match_here unit (c # cs)")
    case None
    then have "\<forall>ds. \<not> occurs_at unit (c # cs) 0 ds"
      using match_here_iff [OF Cons.prems] by (metis option.distinct(1))
    then show ?thesis using None Cons by (simp add: first_occurrence_Cons)
  next
    case (Some ds0)
    then have "\<And>d. occurs_at unit (c # cs) 0 d \<longleftrightarrow> d = ds0"
      using match_here_iff [OF Cons.prems] by (metis option.inject)
    then show ?thesis using Some by (auto simp: first_occurrence_Cons)
  qed
qed


lemma contains_iff_sublist: "contains w s \<longleftrightarrow> sublist w s"
  by (induction s) (simp_all add: sublist_Cons_right)

lemma letter_first_units:
  "letter_first ''week''" "letter_first ''day''" "letter_first ''month''"
  by (simp_all add: letter_first_def is_digit_def is_space_def)

text \<open>Searching a text that starts with characters other than digits, or with digits.\<close>

lemma re_search_skip_nondigits:
  "\<forall>c\<in>set pre. \<not> is_digit c \<Longrightarrow> re_search unit (pre @ s) = re_search unit s"
  by (induction pre) (simp_all add: match_here_def)

lemma match_here_after_digits:
  assumes "ds \<noteq> []" and "\<forall>c\<in>set ds. is_digit c"
  shows "match_here unit (ds @ t) =
           (if prefix unit (dropWhile is_space (dropWhile is_digit t))
            then Some (ds @ takeWhile is_digit t) else None)"
  using assms by (simp add: match_here_def Let_def takeWhile_append2 dropWhile_append2)

lemma re_search_after_digits:
  assumes "\<forall>c\<in>set ds. is_digit c"
    and "\<not> prefix unit (dropWhile is_space (dropWhile is_digit t))"
  shows "re_search unit (ds @ t) = re_search unit t"
  using assms(1)
proof (induction ds)
  case Nil
  then show ?case by simp
next
  case (Cons c ds)
  have "match_here unit ((c # ds) @ t) = None"
    using match_here_after_digits [of "c # ds" unit t] Cons.prems assms(2) by simp
  then show ?case using Cons by simp
qed

lemma lower_digits: "\<forall>c\<in>set ds. is_digit c \<Longrightarrow> lower ds = ds"
  unfolding lower_def by (rule map_idI) (auto simp: lower_char_def is_digit_def Let_def)

lemma lower_append: "lower (a @ b) = lower a @ lower b"
  by (simp add: lower_def)

lemma lower_char_not_digit: "\<not> is_digit c \<Longrightarrow> \<not> is_digit (lower_char c)"
  by (auto simp: is_digit_def lower_char_def Let_def)

lemma lower_no_digits: "\<forall>c\<in>set pre. \<not> is_digit c \<Longrightarrow> \<forall>c\<in>set (lower pre). \<not> is_digit c"
  by (auto simp: lower_def lower_char_not_digit)

lemma digit_run_search:
  assumes "ds \<noteq> []" and "\<forall>c\<in>set ds. is_digit c"
  shows "re_search ''week'' (lower (ds @ '' weeks'')) = Some ds"
    and "re_search ''week'' (lower (ds @ '' days'')) = None"
    and "re_search ''day'' (lower (ds @ '' days'')) = Some ds"
    and "re_search ''week'' (lower (ds @ '' months'')) = None"
    and "re_search ''day'' (lower (ds @ '' months'')) = None"
    and "re_search ''month'' (lower (ds @ '' months'')) = Some ds"
proof -
  obtain c cs where ds: "ds = c # cs" using assms(1) by (cases ds) auto
  have w: "lower '' weeks'' = '' weeks''" and d: "lower '' days'' = '' days''"
    and m: "lower '' months'' = '' months''" by code_simp+
  have sp: "is_space CHR '' ''" and nd: "\<not> is_digit CHR '' ''"
    by (simp_all add: is_space_def is_digit_def)
  have nsp: "\<not> is_space CHR ''w''" "\<not> is_space CHR ''d''" "\<not> is_space CHR ''m''"
    by (simp_all add: is_space_def)
  have hit: "re_search unit (ds @ t) = Some (ds @ takeWhile is_digit t)"
    if "prefix unit (dropWhile is_space (dropWhile is_digit t))" for unit t
    using match_here_after_digits [OF assms, of unit t] that by (simp add: ds)
  show "re_search ''week'' (lower (ds @ '' weeks'')) = Some ds"
    unfolding lower_append lower_digits [OF assms(2)] w
    using hit [of "''week''" "'' weeks''"] by (simp add: sp nd nsp)
  show "re_search ''day'' (lower (ds @ '' days'')) = Some ds"
    unfolding lower_append lower_digits [OF assms(2)] d
    using hit [of "''day''" "'' days''"] by (simp add: sp nd nsp)
  show "re_search ''month'' (lower (ds @ '' months'')) = Some ds"
    unfolding lower_append lower_digits [OF assms(2)] m
    using hit [of "''month''" "'' months''"] by (simp add: sp nd nsp)
  have a: "re_search ''week'' '' days'' = None" "re_search ''week'' '' months'' = None"
    "re_search ''day'' '' months'' = None" by code_simp+
  show "re_search ''week'' (lower (ds @ '' days'')) = None"
    unfolding lower_append lower_digits [OF assms(2)] d
    using re_search_after_digits [OF assms(2), of "''week''" "'' days''"] a
    by (simp add: sp nd nsp)
  show "re_search ''week'' (lower (ds @ '' months'')) = None"
    unfolding lower_append lower_digits [OF assms(2)] m
    using re_search_after_digits [OF assms(2), of "''week''" "'' months''"] a
    by (simp add: sp nd nsp)
  show "re_search ''day'' (lower (ds @ '' months'')) = None"
    unfolding lower_append lower_digits [OF assms(2)] m
    using re_search_after_digits [OF assms(2), of "''day''" "'' months''"] a
    by (simp add: sp nd nsp)
qed

lemma long_run:
  "replicate 4301 CHR ''1'' \<noteq> []" "\<forall>c\<in>set (replicate 4301 CHR ''1''). is_digit c"
  "4300 < length (replicate 4301 CHR ''1'')"
  by (simp_all add: is_digit_def)

text \<open>A goal in which the phrase follows text without digits.\<close>

lemma phrase_after_text:
  assumes "\<forall>c\<in>set pre. \<not> is_digit c"
  shows "extract_timeframe (pre @ ''2 weeks 3 days'' @ post) = Inr 14"
proof -
  have p: "lower ''2 weeks 3 days'' = ''2 weeks 3 days''" by code_simp
  have sp: "is_space CHR '' ''" and nd: "\<not> is_digit CHR '' ''" and d: "is_digit CHR ''2''"
    and nsp: "\<not> is_space CHR ''w''"
    by (simp_all add: is_space_def is_digit_def)
  have "re_search ''week'' (lower (pre @ ''2 weeks 3 days'' @ post))
          = re_search ''week'' (''2 weeks 3 days'' @ lower post)"
    unfolding lower_append p by (rule re_search_skip_nondigits [OF lower_no_digits [OF assms]])
  also have "\<dots> = Some ''2''"
    by (simp add: match_here_def sp nd d nsp)
  finally have "re_search ''week'' (lower (pre @ ''2 weeks 3 days'' @ post)) = Some ''2''" .
  moreover have "py_int ''2'' = Inr 2" by (simp add: py_int_def decimal_value_def digit_value_def)
  ultimately show ?thesis
    by (simp add: extract_timeframe_def first_pattern_time_patterns)
qed

text \<open>
  C4 (as amended). The extractor tries the three patterns on the lower-cased goal in the
  order weeks, days, months and answers from the first pattern that occurs, at its
  leftmost occurrence. With \<open>N\<close> the digits of that occurrence, it returns seven times
  \<open>N\<close> for weeks, \<open>N\<close> for days and thirty times \<open>N\<close> for months when \<open>N\<close> has at most 4300
  digits, and raises \<^verbatim>\<open>ValueError\<close> when it has more; it returns 14 when no pattern occurs.
  The goal \<^verbatim>\<open>2 weeks 3 days\<close> yields 14, and so does every goal whose first occurrence of
  weeks has the digits \<^verbatim>\<open>2\<close>, such as one in which \<^verbatim>\<open>2 weeks 3 days\<close> follows text without
  digits.
\<close>

theorem extract_timeframe_priority:
  "(first_occurrence ''week'' (lower goal) w \<and> length w \<le> 4300
      \<longrightarrow> extract_timeframe goal = Inr (decimal_value w * 7)) \<and>
   (no_occurrence ''week'' (lower goal) \<and> first_occurrence ''day'' (lower goal) d \<and>
    length d \<le> 4300
      \<longrightarrow> extract_timeframe goal = Inr (decimal_value d)) \<and>
   (no_occurrence ''week'' (lower goal) \<and> no_occurrence ''day'' (lower goal) \<and>
    first_occurrence ''month'' (lower goal) m \<and> length m \<le> 4300
      \<longrightarrow> extract_timeframe goal = Inr (decimal_value m * 30)) \<and>
   (no_occurrence ''week'' (lower goal) \<and> no_occurrence ''day'' (lower goal) \<and>
    no_occurrence ''month'' (lower goal)
      \<longrightarrow> extract_timeframe goal = Inr 14) \<and>
   (first_occurrence ''week'' (lower goal) w \<and> 4300 < length w
      \<longrightarrow> extract_timeframe goal = Inl ValueError) \<and>
   (no_occurrence ''week'' (lower goal) \<and> first_occurrence ''day'' (lower goal) d \<and>
    4300 < length d
      \<longrightarrow> extract_timeframe goal = Inl ValueError) \<and>
   (no_occurrence ''week'' (lower goal) \<and> no_occurrence ''day'' (lower goal) \<and>
    first_occurrence ''month'' (lower goal) m \<and> 4300 < length m
      \<longrightarrow> extract_timeframe goal = Inl ValueError) \<and>
   extract_timeframe ''2 weeks 3 days'' = Inr 14 \<and>
   (first_occurrence ''week'' (lower goal) ''2'' \<longrightarrow> extract_timeframe goal = Inr 14) \<and>
   (\<forall>pre post. (\<forall>c\<in>set pre. \<not> is_digit c)
      \<longrightarrow> extract_timeframe (pre @ ''2 weeks 3 days'' @ post) = Inr 14)"
proof -
  have e: "extract_timeframe ''2 weeks 3 days'' = Inr 14" by code_simp
  have two: "decimal_value ''2'' = 2" by (simp add: decimal_value_def digit_value_def)
  have p: "\<forall>pre post. (\<forall>c\<in>set pre. \<not> is_digit c)
      \<longrightarrow> extract_timeframe (pre @ ''2 weeks 3 days'' @ post) = Inr 14"
    using phrase_after_text by blast
  have main: "(first_occurrence ''week'' (lower goal) w \<and> length w \<le> 4300
      \<longrightarrow> extract_timeframe goal = Inr (decimal_value w * 7)) \<and>
   (no_occurrence ''week'' (lower goal) \<and> first_occurrence ''day'' (lower goal) d \<and>
    length d \<le> 4300
      \<longrightarrow> extract_timeframe goal = Inr (decimal_value d)) \<and>
   (no_occurrence ''week'' (lower goal) \<and> no_occurrence ''day'' (lower goal) \<and>
    first_occurrence ''month'' (lower goal) m \<and> length m \<le> 4300
      \<longrightarrow> extract_timeframe goal = Inr (decimal_value m * 30)) \<and>
   (no_occurrence ''week'' (lower goal) \<and> no_occurrence ''day'' (lower goal) \<and>
    no_occurrence ''month'' (lower goal)
      \<longrightarrow> extract_timeframe goal = Inr 14) \<and>
   (first_occurrence ''week'' (lower goal) w \<and> 4300 < length w
      \<longrightarrow> extract_timeframe goal = Inl ValueError) \<and>
   (no_occurrence ''week'' (lower goal) \<and> first_occurrence ''day'' (lower goal) d \<and>
    4300 < length d
      \<longrightarrow> extract_timeframe goal = Inl ValueError) \<and>
   (no_occurrence ''week'' (lower goal) \<and> no_occurrence ''day'' (lower goal) \<and>
    first_occurrence ''month'' (lower goal) m \<and> 4300 < length m
      \<longrightarrow> extract_timeframe goal = Inl ValueError)"
    unfolding extract_timeframe_def first_pattern_time_patterns
    by (simp add: re_search_Some [symmetric] re_search_None [symmetric] letter_first_units
        py_int_def)
  have f: "first_occurrence ''week'' (lower goal) ''2'' \<longrightarrow> extract_timeframe goal = Inr 14"
    unfolding extract_timeframe_def first_pattern_time_patterns
    by (simp add: re_search_Some [symmetric] letter_first_units py_int_def two)
  from main e f p show ?thesis
    apply (elim conjE)
    apply (intro conjI)
    by assumption+
qed

lemma search_examples:
  "re_search ''week'' (lower ''Ship it in 2 Weeks 3 days'') = Some ''2''"
  "re_search ''week'' (lower ''Revise for 10 Days'') = None"
  "re_search ''day'' (lower ''Revise for 10 Days'') = Some ''10''"
  "re_search ''week'' (lower ''Build a shed in 3 months'') = None"
  "re_search ''day'' (lower ''Build a shed in 3 months'') = None"
  "re_search ''month'' (lower ''Build a shed in 3 months'') = Some ''3''"
  "re_search ''week'' (lower ''Tidy the garage'') = None"
  "re_search ''day'' (lower ''Tidy the garage'') = None"
  "re_search ''month'' (lower ''Tidy the garage'') = None"
  by code_simp+

lemma decimal_value_examples:
  "decimal_value ''2'' = 2" "decimal_value ''10'' = 10" "decimal_value ''3'' = 3"
  by code_simp+

theorem extract_timeframe_priority_witness:
  "first_occurrence ''week'' (lower ''Ship it in 2 Weeks 3 days'') ''2'' \<and>
   extract_timeframe ''Ship it in 2 Weeks 3 days'' = Inr 14 \<and>
   no_occurrence ''week'' (lower ''Revise for 10 Days'') \<and>
   first_occurrence ''day'' (lower ''Revise for 10 Days'') ''10'' \<and>
   extract_timeframe ''Revise for 10 Days'' = Inr 10 \<and>
   no_occurrence ''week'' (lower ''Build a shed in 3 months'') \<and>
   no_occurrence ''day'' (lower ''Build a shed in 3 months'') \<and>
   first_occurrence ''month'' (lower ''Build a shed in 3 months'') ''3'' \<and>
   extract_timeframe ''Build a shed in 3 months'' = Inr 90 \<and>
   no_occurrence ''week'' (lower ''Tidy the garage'') \<and>
   no_occurrence ''day'' (lower ''Tidy the garage'') \<and>
   no_occurrence ''month'' (lower ''Tidy the garage'') \<and>
   extract_timeframe ''Tidy the garage'' = Inr 14 \<and>
   4300 < length (replicate 4301 CHR ''1'') \<and>
   first_occurrence ''week'' (lower (replicate 4301 CHR ''1'' @ '' weeks''))
     (replicate 4301 CHR ''1'') \<and>
   extract_timeframe (replicate 4301 CHR ''1'' @ '' weeks'') = Inl ValueError \<and>
   no_occurrence ''week'' (lower (replicate 4301 CHR ''1'' @ '' days'')) \<and>
   first_occurrence ''day'' (lower (replicate 4301 CHR ''1'' @ '' days''))
     (replicate 4301 CHR ''1'') \<and>
   extract_timeframe (replicate 4301 CHR ''1'' @ '' days'') = Inl ValueError \<and>
   no_occurrence ''week'' (lower (replicate 4301 CHR ''1'' @ '' months'')) \<and>
   no_occurrence ''day'' (lower (replicate 4301 CHR ''1'' @ '' months'')) \<and>
   first_occurrence ''month'' (lower (replicate 4301 CHR ''1'' @ '' months''))
     (replicate 4301 CHR ''1'') \<and>
   extract_timeframe (replicate 4301 CHR ''1'' @ '' months'') = Inl ValueError \<and>
   list_all (\<lambda>c. \<not> is_digit c) ''Ship it in '' \<and>
   extract_timeframe (''Ship it in '' @ ''2 weeks 3 days'' @ '', then rest'') = Inr 14"
proof -
  have a: "first_occurrence ''week'' (lower ''Ship it in 2 Weeks 3 days'') ''2''"
    using search_examples(1) by (simp only: re_search_Some [OF letter_first_units(1)])
  have b: "no_occurrence ''week'' (lower ''Revise for 10 Days'')"
    using search_examples(2) by (simp only: re_search_None [OF letter_first_units(1)])
  have c: "first_occurrence ''day'' (lower ''Revise for 10 Days'') ''10''"
    using search_examples(3) by (simp only: re_search_Some [OF letter_first_units(2)])
  have d: "no_occurrence ''week'' (lower ''Build a shed in 3 months'')"
    using search_examples(4) by (simp only: re_search_None [OF letter_first_units(1)])
  have e: "no_occurrence ''day'' (lower ''Build a shed in 3 months'')"
    using search_examples(5) by (simp only: re_search_None [OF letter_first_units(2)])
  have f: "first_occurrence ''month'' (lower ''Build a shed in 3 months'') ''3''"
    using search_examples(6) by (simp only: re_search_Some [OF letter_first_units(3)])
  have g: "no_occurrence ''week'' (lower ''Tidy the garage'')"
    using search_examples(7) by (simp only: re_search_None [OF letter_first_units(1)])
  have h: "no_occurrence ''day'' (lower ''Tidy the garage'')"
    using search_examples(8) by (simp only: re_search_None [OF letter_first_units(2)])
  have i: "no_occurrence ''month'' (lower ''Tidy the garage'')"
    using search_examples(9) by (simp only: re_search_None [OF letter_first_units(3)])
  note run = digit_run_search [OF long_run(1) long_run(2)]
  have j: "first_occurrence ''week'' (lower (replicate 4301 CHR ''1'' @ '' weeks''))
     (replicate 4301 CHR ''1'')"
    using run(1) by (simp only: re_search_Some [OF letter_first_units(1)])
  have k: "no_occurrence ''week'' (lower (replicate 4301 CHR ''1'' @ '' days''))"
    using run(2) by (simp only: re_search_None [OF letter_first_units(1)])
  have l: "first_occurrence ''day'' (lower (replicate 4301 CHR ''1'' @ '' days''))
     (replicate 4301 CHR ''1'')"
    using run(3) by (simp only: re_search_Some [OF letter_first_units(2)])
  have m: "no_occurrence ''week'' (lower (replicate 4301 CHR ''1'' @ '' months''))"
    using run(4) by (simp only: re_search_None [OF letter_first_units(1)])
  have n: "no_occurrence ''day'' (lower (replicate 4301 CHR ''1'' @ '' months''))"
    using run(5) by (simp only: re_search_None [OF letter_first_units(2)])
  have o: "first_occurrence ''month'' (lower (replicate 4301 CHR ''1'' @ '' months''))
     (replicate 4301 CHR ''1'')"
    using run(6) by (simp only: re_search_Some [OF letter_first_units(3)])
  have q: "list_all (\<lambda>c. \<not> is_digit c) ''Ship it in ''"
    by (simp add: is_digit_def)
  have 1: "extract_timeframe ''Ship it in 2 Weeks 3 days'' = Inr 14"
    using extract_timeframe_priority [of "''Ship it in 2 Weeks 3 days''" "''2''"] a
    by (simp add: decimal_value_examples)
  have 2: "extract_timeframe ''Revise for 10 Days'' = Inr 10"
    using extract_timeframe_priority [of "''Revise for 10 Days''" _ "''10''"] b c
    by (simp add: decimal_value_examples)
  have 3: "extract_timeframe ''Build a shed in 3 months'' = Inr 90"
    using extract_timeframe_priority [of "''Build a shed in 3 months''" _ _ "''3''"] d e f
    by (simp add: decimal_value_examples)
  have 4: "extract_timeframe ''Tidy the garage'' = Inr 14"
    using extract_timeframe_priority [of "''Tidy the garage''"] g h i
    by simp
  have 5: "extract_timeframe (replicate 4301 CHR ''1'' @ '' weeks'') = Inl ValueError"
    using extract_timeframe_priority
      [of "replicate 4301 CHR ''1'' @ '' weeks''" "replicate 4301 CHR ''1''"] j long_run(3)
    by simp
  have 6: "extract_timeframe (replicate 4301 CHR ''1'' @ '' days'') = Inl ValueError"
    using extract_timeframe_priority
      [of "replicate 4301 CHR ''1'' @ '' days''" _ "replicate 4301 CHR ''1''"] k l long_run(3)
    by simp
  have 7: "extract_timeframe (replicate 4301 CHR ''1'' @ '' months'') = Inl ValueError"
    using extract_timeframe_priority
      [of "replicate 4301 CHR ''1'' @ '' months''" _ _ "replicate 4301 CHR ''1''"] m n o
      long_run(3)
    by simp
  have 8: "extract_timeframe (''Ship it in '' @ ''2 weeks 3 days'' @ '', then rest'') = Inr 14"
    using extract_timeframe_priority [of "''x''"] q
    by (simp only: list_all_iff)
  show ?thesis by (intro conjI a b c d e f g h i j k l m n o q long_run(3) 1 2 3 4 5 6 7 8)
qed

theorem phrase_inside_number_counterexample:
  "sublist ''2 weeks 3 days'' ''12 weeks 3 days'' \<and>
   extract_timeframe ''12 weeks 3 days'' = Inr 84 \<and>
   sublist ''2 weeks 3 days'' ''1 week, then 2 weeks 3 days'' \<and>
   extract_timeframe ''1 week, then 2 weeks 3 days'' = Inr 7"
proof -
  have "contains ''2 weeks 3 days'' ''12 weeks 3 days''"
    and "extract_timeframe ''12 weeks 3 days'' = Inr 84"
    and "contains ''2 weeks 3 days'' ''1 week, then 2 weeks 3 days''"
    and "extract_timeframe ''1 week, then 2 weeks 3 days'' = Inr 7"
    by code_simp+
  then show ?thesis by (simp only: contains_iff_sublist)
qed

section \<open>The classifier follows the order of the keyword lists\<close>

lemma any_word_in_iff_mentions: "any_word_in words s \<longleftrightarrow> mentions words s"
  by (simp add: any_word_in_def mentions_def list_ex_iff contains_iff_sublist)

lemma study_is_learning_word: "sublist ''study'' s \<Longrightarrow> mentions learning_words s"
  by (simp add: mentions_def learning_words_def)

text \<open>
  C5 (as amended). The family of a goal is decided on its lower-cased text by the first
  keyword list, in the order Product, Event, Learning, Research, that has a word occurring
  in it, and is Generic when none has; so exactly one family is selected. A goal whose
  lower-cased text contains \<^verbatim>\<open>study\<close>, with or without \<^verbatim>\<open>research\<close>, and no Product and no
  Event keyword is classified as Learning.
\<close>

theorem classify_priority:
  "(classify (lower goal) = Product \<longleftrightarrow> mentions product_words (lower goal)) \<and>
   (classify (lower goal) = Event \<longleftrightarrow>
      \<not> mentions product_words (lower goal) \<and> mentions event_words (lower goal)) \<and>
   (classify (lower goal) = Learning \<longleftrightarrow>
      \<not> mentions product_words (lower goal) \<and> \<not> mentions event_words (lower goal) \<and>
      mentions learning_words (lower goal)) \<and>
   (classify (lower goal) = Research \<longleftrightarrow>
      \<not> mentions product_words (lower goal) \<and> \<not> mentions event_words (lower goal) \<and>
      \<not> mentions learning_words (lower goal) \<and> mentions research_words (lower goal)) \<and>
   (classify (lower goal) = Generic \<longleftrightarrow>
      \<not> mentions product_words (lower goal) \<and> \<not> mentions event_words (lower goal) \<and>
      \<not> mentions learning_words (lower goal) \<and> \<not> mentions research_words (lower goal)) \<and>
   (sublist ''study'' (lower goal) \<and> \<not> mentions product_words (lower goal) \<and>
    \<not> mentions event_words (lower goal) \<longrightarrow> classify (lower goal) = Learning)"
  using study_is_learning_word [of "lower goal"]
  by (auto simp: classify_def any_word_in_iff_mentions)

lemma classify_examples:
  "sublist ''study'' (lower ''Study the research on sleep'')"
  "\<not> mentions product_words (lower ''Study the research on sleep'')"
  "\<not> mentions event_words (lower ''Study the research on sleep'')"
  "mentions product_words (lower ''Launch a mobile app in 3 weeks'')"
  "\<not> mentions product_words (lower ''Organise a Conference'')"
  "mentions event_words (lower ''Organise a Conference'')"
  "\<not> mentions product_words (lower ''Write a thesis'')"
  "\<not> mentions event_words (lower ''Write a thesis'')"
  "\<not> mentions learning_words (lower ''Write a thesis'')"
  "mentions research_words (lower ''Write a thesis'')"
  "\<not> mentions product_words (lower ''Tidy the garage'')"
  "\<not> mentions event_words (lower ''Tidy the garage'')"
  "\<not> mentions learning_words (lower ''Tidy the garage'')"
  "\<not> mentions research_words (lower ''Tidy the garage'')"
  unfolding any_word_in_iff_mentions [symmetric] contains_iff_sublist [symmetric]
  by code_simp+

theorem classify_priority_witness:
  "sublist ''study'' (lower ''Study the research on sleep'') \<and>
   \<not> mentions product_words (lower ''Study the research on sleep'') \<and>
   \<not> mentions event_words (lower ''Study the research on sleep'') \<and>
   classify (lower ''Study the research on sleep'') = Learning \<and>
   classify (lower ''Launch a mobile app in 3 weeks'') = Product \<and>
   classify (lower ''Organise a Conference'') = Event \<and>
   classify (lower ''Write a thesis'') = Research \<and>
   classify (lower ''Tidy the garage'') = Generic"
proof -
  note e = classify_examples
  have a: "classify (lower ''Study the research on sleep'') = Learning"
    using classify_priority [of "''Study the research on sleep''"] e(1) e(2) e(3) by simp
  have b: "classify (lower ''Launch a mobile app in 3 weeks'') = Product"
    using classify_priority [of "''Launch a mobile app in 3 weeks''"] e(4) by simp
  have c: "classify (lower ''Organise a Conference'') = Event"
    using classify_priority [of "''Organise a Conference''"] e(5) e(6) by simp
  have d: "classify (lower ''Write a thesis'') = Research"
    using classify_priority [of "''Write a thesis''"] e(7) e(8) e(9) e(10) by simp
  have f: "classify (lower ''Tidy the garage'') = Generic"
    using classify_priority [of "''Tidy the garage''"] e(11) e(12) e(13) e(14) by simp
  show ?thesis by (intro conjI e(1) e(2) e(3) a b c d f)
qed

theorem study_and_research_counterexample:
  "sublist ''study'' ''study research for a product launch'' \<and>
   sublist ''research'' ''study research for a product launch'' \<and>
   classify (lower ''study research for a product launch'') = Product"
proof -
  have "contains ''study'' ''study research for a product launch''"
    and "contains ''research'' ''study research for a product launch''"
    and "classify (lower ''study research for a product launch'') = Product"
    by code_simp+
  then show ?thesis by (simp only: contains_iff_sublist)
qed

section \<open>Deadlines and the timeline\<close>

lemma launch_plan_example:
  "extract_timeframe ''Launch a mobile app in 3 weeks'' = Inr 21"
  "classify (lower ''Launch a mobile app in 3 weeks'') = Product"
  by code_simp+

lemma short_launch_example:
  "map_sum id (\<lambda>p. (map deadline (tasks p), start_date (timeline p), end_date (timeline p)))
     (fallback_plan_generation 739925 ''Launch a mobile app in 3 days'')
   = Inr ([739926, 739927, 739929, 739932, 739935, 739938, 739940, 739928], 739925, 739928)"
  by code_simp

text \<open>
  C1 (as amended). In a plan of the rule-based generator the start date is the
  generation date and the end date is \<^verbatim>\<open>total_days\<close> later. No deadline is before the start
  date, and none is later than the end date or, if that is later, the start date plus
  the largest floor of the goal's family: 15 days for Product, 6 for Event, 10 for
  Learning, 11 for Research, none for Generic. So all deadlines lie within the timeline
  when \<^verbatim>\<open>total_days\<close> is at least that floor.
\<close>

theorem deadlines_within_timeline_or_floor:
  assumes "fallback_plan_generation now goal = Inr p" and "t \<in> set (tasks p)"
  shows "\<exists>total_days. extract_timeframe goal = Inr total_days \<and>
         start_date (timeline p) = now \<and>
         end_date (timeline p) = now + total_days \<and>
         start_date (timeline p) \<le> deadline t \<and>
         deadline t \<le> start_date (timeline p)
            + max total_days (largest_floor (classify (lower goal))) \<and>
         (largest_floor (classify (lower goal)) \<le> total_days
            \<longrightarrow> deadline t \<le> end_date (timeline p))"
proof -
  from fallback_Inr [OF assms(1)] obtain td where
    td: "extract_timeframe goal = Inr td"
    and e: "add_days now td = Inr (end_date (timeline p))"
    and ts: "select_tasks goal now (end_date (timeline p)) td = Inr (tasks p)"
    and s: "start_date (timeline p) = now"
    by blast
  from e have f: "end_date (timeline p) = now + td" and le: "\<bar>td\<bar> \<le> 999999999"
    by (simp_all add: add_days_Inr)
  have td0: "0 \<le> td" by (rule extract_timeframe_nonneg [OF td])
  have td53: "td < 2 ^ 53" using le by simp
  from select_tasks_deadlines [OF ts [unfolded f] assms(2) td0 td53]
  have b: "now \<le> deadline t"
    "deadline t \<le> now + max td (largest_floor (classify (lower goal)))" by simp_all
  have "largest_floor (classify (lower goal)) \<le> td \<longrightarrow> deadline t \<le> now + td"
    using b(2) by (auto simp: max_def split: if_splits)
  then have "extract_timeframe goal = Inr td \<and>
         start_date (timeline p) = now \<and>
         end_date (timeline p) = now + td \<and>
         start_date (timeline p) \<le> deadline t \<and>
         deadline t \<le> start_date (timeline p)
            + max td (largest_floor (classify (lower goal))) \<and>
         (largest_floor (classify (lower goal)) \<le> td
            \<longrightarrow> deadline t \<le> end_date (timeline p))"
    using td s f b by simp
  then show ?thesis ..
qed

theorem deadlines_within_timeline_or_floor_witness:
  "\<exists>p t. fallback_plan_generation 739925 ''Launch a mobile app in 3 weeks'' = Inr p \<and>
     t \<in> set (tasks p) \<and>
     extract_timeframe ''Launch a mobile app in 3 weeks'' = Inr 21 \<and>
     largest_floor (classify (lower ''Launch a mobile app in 3 weeks'')) \<le> 21 \<and>
     start_date (timeline p) = 739925 \<and> end_date (timeline p) = 739946 \<and>
     start_date (timeline p) \<le> deadline t \<and> deadline t \<le> end_date (timeline p)"
proof -
  have "739925 + max 21
          (largest_floor (classify (lower ''Launch a mobile app in 3 weeks''))) \<le> MAXORDINAL"
    by (simp add: launch_plan_example MAXORDINAL_def)
  then obtain p where p: "fallback_plan_generation 739925 ''Launch a mobile app in 3 weeks'' = Inr p"
    using fallback_returns_iff [of 739925 "''Launch a mobile app in 3 weeks''" 21]
      launch_plan_example(1) by auto
  obtain td where "select_tasks ''Launch a mobile app in 3 weeks'' 739925 (end_date (timeline p)) td
      = Inr (tasks p)"
    using fallback_Inr [OF p] by blast
  then have "3 < length (tasks p)" by (rule select_tasks_length)
  then have t: "hd (tasks p) \<in> set (tasks p)" by (cases "tasks p") simp_all
  have fl: "largest_floor (classify (lower ''Launch a mobile app in 3 weeks'')) \<le> 21"
    by (simp add: launch_plan_example)
  from deadlines_within_timeline_or_floor [OF p t] fl
  have "start_date (timeline p) = 739925 \<and> end_date (timeline p) = 739946 \<and>
     start_date (timeline p) \<le> deadline (hd (tasks p)) \<and>
     deadline (hd (tasks p)) \<le> end_date (timeline p)"
    by (auto simp: launch_plan_example)
  then show ?thesis
    by (intro exI [of _ p] exI [of _ "hd (tasks p)"] conjI p t fl launch_plan_example(1)) simp_all
qed

theorem deadline_after_end_counterexample:
  "map_sum id (\<lambda>p. (map deadline (tasks p), start_date (timeline p), end_date (timeline p)))
     (fallback_plan_generation 739925 ''Launch a mobile app in 3 days'')
   = Inr ([739926, 739927, 739929, 739932, 739935, 739938, 739940, 739928], 739925, 739928)"
  by (rule short_launch_example)

section \<open>The last deadline\<close>

lemma long_goal_example:
  "extract_timeframe ''Learn to paint in 100000 months'' = Inr 3000000"
  "classify (lower ''Learn to paint in 100000 months'') = Learning"
  by code_simp+

lemma garden_goal_example:
  "extract_timeframe ''Plant a garden in 2 months'' = Inr 60"
  "classify (lower ''Plant a garden in 2 months'') = Generic"
  by code_simp+

text \<open>
  In the four named families the last task is due on the end date, and the first
  milestone of every plan is dated with the start date.
\<close>

lemma named_family_last_deadline:
  assumes "fallback_plan_generation now goal = Inr p" and "classify (lower goal) \<noteq> Generic"
  shows "deadline (last (tasks p)) = end_date (timeline p)"
proof -
  from fallback_Inr [OF assms(1)] obtain td where
    "select_tasks goal now (end_date (timeline p)) td = Inr (tasks p)" by blast
  from select_tasks_last_deadline [OF this assms(2)] show ?thesis by simp
qed

lemma first_milestone_date:
  assumes "fallback_plan_generation now goal = Inr p"
  shows "date (hd (milestones (timeline p))) = start_date (timeline p)"
proof -
  from fallback_Inr [OF assms] obtain td where
    "create_milestones (tasks p) now (end_date (timeline p)) td = Inr (milestones (timeline p))"
    and "start_date (timeline p) = now" by blast
  then show ?thesis using create_milestones_Inr(2) by simp
qed

text \<open>
  C2. For the goal \<^verbatim>\<open>plan a trip\<close>, which no keyword list matches and which names no
  timeframe, the generic tasks are due 0, 3, 7 and 10 days after the start date, while the
  plan ends 14 days after it: the last deadline is not the end date.
\<close>

theorem generic_last_deadline_before_end:
  "map_sum id (\<lambda>p. (map deadline (tasks p), end_date (timeline p)))
     (fallback_plan_generation 739925 ''plan a trip'')
   = Inr ([739925, 739928, 739932, 739935], 739939)"
  by code_simp

section \<open>The rule-based path: when it returns and what it raises\<close>

lemma extract_timeframe_ValueError:
  "extract_timeframe goal = Inl ValueError \<longleftrightarrow>
     (\<exists>ds. timeframe_digits (lower goal) ds \<and> 4300 < length ds)"
  unfolding extract_timeframe_def first_pattern_time_patterns timeframe_digits_def
  by (auto simp: re_search_Some [symmetric] re_search_None [symmetric] letter_first_units
      py_int_def split: option.splits)

lemma extract_timeframe_cases:
  "(\<exists>td. extract_timeframe goal = Inr td) \<or> extract_timeframe goal = Inl ValueError"
proof (cases "extract_timeframe goal")
  case (Inl e)
  then show ?thesis using extract_timeframe_Inl [of goal e] by simp
next
  case (Inr td)
  then show ?thesis by simp
qed

lemma long_number_example:
  "timeframe_digits (lower (replicate 4301 CHR ''1'' @ '' days'')) (replicate 4301 CHR ''1'')"
proof -
  note run = digit_run_search [OF long_run(1) long_run(2)]
  have "no_occurrence ''week'' (lower (replicate 4301 CHR ''1'' @ '' days''))"
    using run(2) by (simp only: re_search_None [OF letter_first_units(1)])
  moreover have "first_occurrence ''day'' (lower (replicate 4301 CHR ''1'' @ '' days''))
     (replicate 4301 CHR ''1'')"
    using run(3) by (simp only: re_search_Some [OF letter_first_units(2)])
  ultimately show ?thesis unfolding timeframe_digits_def by (intro disjI2 disjI1 conjI)
qed

text \<open>
  C3 (as amended). On the rule-based path \<^verbatim>\<open>generate_task_plan\<close> makes no LLM request and
  has one of three outcomes. When the number the extractor converts has more than 4300
  digits, \<^verbatim>\<open>int\<close> raises \<^verbatim>\<open>ValueError\<close> and so does \<^verbatim>\<open>generate_task_plan\<close>; this is the only
  way the extraction fails. Otherwise, with \<^verbatim>\<open>total_days\<close> the extracted number of days
  and \<open>now\<close> the generation date, it returns a plan when \<open>now\<close> plus the larger of
  \<^verbatim>\<open>total_days\<close> and the largest floor of the goal's family is no later than 9999-12-31,
  and raises \<^verbatim>\<open>OverflowError\<close> when that date is later.
\<close>

theorem fallback_path_returns_in_range:
  assumes "method \<noteq> ''ollama''" and "0 < now"
  shows "(extract_timeframe goal = Inr td \<and>
          now + max td (largest_floor (classify (lower goal))) \<le> MAXORDINAL
          \<longrightarrow> (\<exists>p. generate_task_plan loads server now method n goal = (Inr (RulePlan p), n))) \<and>
         (extract_timeframe goal = Inr td \<and>
          MAXORDINAL < now + max td (largest_floor (classify (lower goal)))
          \<longrightarrow> generate_task_plan loads server now method n goal = (Inl OverflowError, n)) \<and>
         (extract_timeframe goal = Inl ValueError
          \<longrightarrow> generate_task_plan loads server now method n goal = (Inl ValueError, n)) \<and>
         (extract_timeframe goal = Inl ValueError
          \<longleftrightarrow> (\<exists>ds. timeframe_digits (lower goal) ds \<and> 4300 < length ds)) \<and>
         ((\<exists>td. extract_timeframe goal = Inr td) \<or> extract_timeframe goal = Inl ValueError)"
proof -
  have a: "\<exists>p. generate_task_plan loads server now method n goal = (Inr (RulePlan p), n)"
    if h: "extract_timeframe goal = Inr td \<and>
        now + max td (largest_floor (classify (lower goal))) \<le> MAXORDINAL"
  proof -
    obtain p where "fallback_plan_generation now goal = Inr p"
      using fallback_returns_iff [OF assms(2), of goal td] h by blast
    then have "generate_task_plan loads server now method n goal = (Inr (RulePlan p), n)"
      using assms(1) by (simp add: generate_task_plan_def fallback_result_def)
    then show ?thesis ..
  qed
  have b: "generate_task_plan loads server now method n goal = (Inl OverflowError, n)"
    if h: "extract_timeframe goal = Inr td \<and>
        MAXORDINAL < now + max td (largest_floor (classify (lower goal)))"
  proof -
    have "\<not> (\<exists>p. fallback_plan_generation now goal = Inr p)"
      using fallback_returns_iff [OF assms(2), of goal td] h by simp
    then obtain e where e: "fallback_plan_generation now goal = Inl e"
      by (cases "fallback_plan_generation now goal") auto
    then have "e = OverflowError" using h fallback_Inl [of now goal e td] by simp
    then show ?thesis
      using e assms(1) by (simp add: generate_task_plan_def fallback_result_def)
  qed
  have c: "generate_task_plan loads server now method n goal = (Inl ValueError, n)"
    if "extract_timeframe goal = Inl ValueError"
    using fallback_no_timeframe [OF that, of now] assms(1)
    by (simp add: generate_task_plan_def fallback_result_def)
  show ?thesis
    using a b c extract_timeframe_ValueError [of goal] extract_timeframe_cases [of goal]
    by (intro conjI impI) assumption+
qed

theorem fallback_path_returns_in_range_witness:
  "extract_timeframe ''Plant a garden in 2 months'' = Inr 60 \<and>
   739925 + max 60 (largest_floor (classify (lower ''Plant a garden in 2 months'')))
     \<le> MAXORDINAL \<and>
   (\<exists>p. generate_task_plan (\<lambda>s. None :: unit option) (\<lambda>k. ConnectionError) 739925
           ''fallback'' 0 ''Plant a garden in 2 months'' = (Inr (RulePlan p), 0)) \<and>
   extract_timeframe ''Learn to paint in 100000 months'' = Inr 3000000 \<and>
   MAXORDINAL < 739925 + max 3000000
       (largest_floor (classify (lower ''Learn to paint in 100000 months''))) \<and>
   generate_task_plan (\<lambda>s. None :: unit option) (\<lambda>k. ConnectionError) 739925
       ''fallback'' 0 ''Learn to paint in 100000 months'' = (Inl OverflowError, 0) \<and>
   timeframe_digits (lower (replicate 4301 CHR ''1'' @ '' days'')) (replicate 4301 CHR ''1'') \<and>
   4300 < length (replicate 4301 CHR ''1'') \<and>
   extract_timeframe (replicate 4301 CHR ''1'' @ '' days'') = Inl ValueError \<and>
   generate_task_plan (\<lambda>s. None :: unit option) (\<lambda>k. ConnectionError) 739925
       ''fallback'' 0 (replicate 4301 CHR ''1'' @ '' days'') = (Inl ValueError, 0)"
proof -
  have m: "''fallback'' \<noteq> ''ollama''" and n: "(0::int) < 739925" by simp_all
  have a: "739925 + max 60 (largest_floor (classify (lower ''Plant a garden in 2 months'')))
     \<le> MAXORDINAL"
    by (simp add: garden_goal_example MAXORDINAL_def)
  have b: "MAXORDINAL < 739925 + max 3000000
       (largest_floor (classify (lower ''Learn to paint in 100000 months'')))"
    by (simp add: long_goal_example MAXORDINAL_def)
  note w1 = fallback_path_returns_in_range [OF m n, of "''Plant a garden in 2 months''" 60
      "\<lambda>s. None :: unit option" "\<lambda>k. ConnectionError" 0]
  note w2 = fallback_path_returns_in_range [OF m n, of "''Learn to paint in 100000 months''"
      3000000 "\<lambda>s. None :: unit option" "\<lambda>k. ConnectionError" 0]
  note w3 = fallback_path_returns_in_range [OF m n, of "replicate 4301 CHR ''1'' @ '' days''"
      0 "\<lambda>s. None :: unit option" "\<lambda>k. ConnectionError" 0]
  have c: "\<exists>ds. timeframe_digits (lower (replicate 4301 CHR ''1'' @ '' days'')) ds \<and>
             4300 < length ds"
    by (rule exI [of _ "replicate 4301 CHR ''1''"]) (intro conjI long_number_example long_run(3))
  have d: "extract_timeframe (replicate 4301 CHR ''1'' @ '' days'') = Inl ValueError"
    using w3 c by (simp only:)
  have 1: "\<exists>p. generate_task_plan (\<lambda>s. None :: unit option) (\<lambda>k. ConnectionError) 739925
           ''fallback'' 0 ''Plant a garden in 2 months'' = (Inr (RulePlan p), 0)"
    by (rule mp [OF conjunct1 [OF w1]]) (intro conjI garden_goal_example(1) a)
  have 2: "generate_task_plan (\<lambda>s. None :: unit option) (\<lambda>k. ConnectionError) 739925
       ''fallback'' 0 ''Learn to paint in 100000 months'' = (Inl OverflowError, 0)"
    by (rule mp [OF conjunct1 [OF conjunct2 [OF w2]]]) (intro conjI long_goal_example(1) b)
  have 3: "generate_task_plan (\<lambda>s. None :: unit option) (\<lambda>k. ConnectionError) 739925
       ''fallback'' 0 (replicate 4301 CHR ''1'' @ '' days'') = (Inl ValueError, 0)"
    by (rule mp [OF conjunct1 [OF conjunct2 [OF conjunct2 [OF w3]]] d])
  show ?thesis
    by (intro conjI garden_goal_example(1) long_goal_example(1) a b long_number_example
        long_run(3) d 1 2 3)
qed

theorem fallback_path_raises_counterexample:
  "generate_task_plan (\<lambda>s. None :: unit option) (\<lambda>k. ConnectionError) 739925
       ''fallback'' 0 ''Learn to paint in 100000 months'' = (Inl OverflowError, 0) \<and>
   generate_task_plan (\<lambda>s. None :: unit option) (\<lambda>k. ConnectionError) 739925
       ''fallback'' 0 (replicate 4301 CHR ''1'' @ '' days'') = (Inl ValueError, 0)"
proof -
  have "generate_task_plan (\<lambda>s. None :: unit option) (\<lambda>k. ConnectionError) 739925
       ''fallback'' 0 ''Learn to paint in 100000 months'' = (Inl OverflowError, 0)"
    by code_simp
  moreover have "re_search ''week'' (lower (replicate 4301 CHR ''1'' @ '' days'')) = None"
    and "re_search ''day'' (lower (replicate 4301 CHR ''1'' @ '' days''))
           = Some (replicate 4301 CHR ''1'')"
    using digit_run_search [OF long_run(1) long_run(2)] by simp_all
  then have "extract_timeframe (replicate 4301 CHR ''1'' @ '' days'') = Inl ValueError"
    by (simp add: extract_timeframe_def first_pattern_time_patterns py_int_def)
  then have "generate_task_plan (\<lambda>s. None :: unit option) (\<lambda>k. ConnectionError) 739925
       ''fallback'' 0 (replicate 4301 CHR ''1'' @ '' days'') = (Inl ValueError, 0)"
    by (simp add: generate_task_plan_def fallback_result_def fallback_plan_generation_def)
  ultimately show ?thesis by (rule conjI)
qed

section \<open>The LLM adapter falls back\<close>

lemma py_find_notin: "c \<notin> set s \<Longrightarrow> py_find s c = - 1"
  by (induction s) (auto simp: Let_def)

lemma py_find_first: "c \<notin> set pre \<Longrightarrow> py_find (pre @ c # rest) c = int (length pre)"
  by (induction pre) (auto simp: Let_def)

lemma py_find_in:
  assumes "c \<in> set s"
  shows "\<exists>pre rest. s = pre @ c # rest \<and> c \<notin> set pre \<and> py_find s c = int (length pre)"
proof -
  from split_list_first [OF assms] obtain pre rest where "s = pre @ c # rest" "c \<notin> set pre"
    by blast
  then show ?thesis using py_find_first by blast
qed

lemma py_rfind_notin: "c \<notin> set s \<Longrightarrow> py_rfind s c = - 1"
  by (simp add: py_rfind_def py_find_notin)

lemma py_rfind_last:
  assumes "c \<notin> set post"
  shows "py_rfind (xs @ c # post) c = int (length xs)"
proof -
  have "rev (xs @ c # post) = rev post @ c # rev xs" by simp
  moreover have "c \<notin> set (rev post)" using assms by simp
  ultimately have "py_find (rev (xs @ c # post)) c = int (length post)"
    using py_find_first [of c "rev post" "rev xs"] by simp
  then show ?thesis by (simp add: py_rfind_def)
qed

lemma py_rfind_in:
  assumes "c \<in> set s"
  shows "\<exists>xs post. s = xs @ c # post \<and> c \<notin> set post \<and> py_rfind s c = int (length xs)"
proof -
  from split_list_last [OF assms] obtain xs post where "s = xs @ c # post" "c \<notin> set post"
    by blast
  then show ?thesis using py_rfind_last by blast
qed

lemma slice_region:
  "slice (pre @ ''{'' @ mid @ ''}'' @ post) (int (length pre)) (int (length pre + length mid + 1) + 1)
     = ''{'' @ mid @ ''}''"
  by (simp add: slice_def nat_add_distrib)

text \<open>When the first brace opens before the last one closes, the text splits there.\<close>

lemma region_split:
  assumes "0 \<le> py_find s CHR ''{''" and "py_find s CHR ''{'' < py_rfind s CHR ''}'' + 1"
  shows "\<exists>pre mid post. s = pre @ ''{'' @ mid @ ''}'' @ post \<and>
           CHR ''{'' \<notin> set pre \<and> CHR ''}'' \<notin> set post"
proof -
  have "CHR ''{'' \<in> set s" using assms(1) py_find_notin [of "CHR ''{''" s] by force
  from py_find_in [OF this] obtain pre rest where
    s1: "s = pre @ CHR ''{'' # rest" and pre: "CHR ''{'' \<notin> set pre"
    and f: "py_find s CHR ''{'' = int (length pre)" by blast
  have "CHR ''}'' \<in> set s" using assms f py_rfind_notin [of "CHR ''}''" s] by force
  from py_rfind_in [OF this] obtain xs post where
    s2: "s = xs @ CHR ''}'' # post" and post: "CHR ''}'' \<notin> set post"
    and r: "py_rfind s CHR ''}'' = int (length xs)" by blast
  have le: "length pre \<le> length xs" using assms(2) f r by simp
  have "s ! length pre = CHR ''{''" using s1 by simp
  moreover have "s ! length xs = CHR ''}''" using s2 by simp
  ultimately have "length pre \<noteq> length xs" by auto
  then have lt: "length pre < length xs" using le by simp
  have "pre @ CHR ''{'' # rest = xs @ CHR ''}'' # post" using s1 s2 by simp
  then obtain mid where "xs = pre @ CHR ''{'' # mid"
    using lt by (auto simp: append_eq_append_conv2 Cons_eq_append_conv)
  then have "s = pre @ ''{'' @ mid @ ''}'' @ post" using s2 by simp
  then show ?thesis using pre post by blast
qed

lemma region_found:
  assumes "s = pre @ ''{'' @ mid @ ''}'' @ post"
  shows "0 \<le> py_find s CHR ''{'' \<and> py_find s CHR ''{'' < py_rfind s CHR ''}'' + 1"
proof -
  have i1: "CHR ''{'' \<in> set s" and i2: "CHR ''}'' \<in> set s" using assms by simp_all
  from py_find_in [OF i1] obtain a b where
    s1: "s = a @ CHR ''{'' # b" and a: "CHR ''{'' \<notin> set a"
    and f: "py_find s CHR ''{'' = int (length a)" by blast
  from py_rfind_in [OF i2] obtain xs c where
    s2: "s = xs @ CHR ''}'' # c" and c: "CHR ''}'' \<notin> set c"
    and r: "py_rfind s CHR ''}'' = int (length xs)" by blast
  have "length a \<le> length pre"
  proof (rule ccontr)
    assume "\<not> length a \<le> length pre"
    then have "length pre < length a" by simp
    moreover have "a ! length pre = s ! length pre" using s1 calculation by (simp add: nth_append)
    moreover have "s ! length pre = CHR ''{''" using assms by simp
    ultimately show False using a by (metis nth_mem)
  qed
  moreover have "length pre + length mid + 1 \<le> length xs"
  proof (rule ccontr)
    assume "\<not> length pre + length mid + 1 \<le> length xs"
    then have lt: "length xs < length pre + length mid + 1" by simp
    have len: "length s = length xs + 1 + length c" using s2 by simp
    have "s ! (length pre + length mid + 1) = CHR ''}''"
      using assms by (simp add: nth_append)
    moreover have "s ! (length pre + length mid + 1) = c ! (length pre + length mid + 1 - length xs - 1)"
      using s2 lt by (simp add: nth_append nth_Cons')
    moreover have "length pre + length mid + 1 - length xs - 1 < length c"
      using lt len assms by simp
    ultimately show False using c by (metis nth_mem)
  qed
  ultimately show ?thesis using f r by simp
qed

lemma has_region_iff:
  "has_region s \<longleftrightarrow> 0 \<le> py_find s CHR ''{'' \<and> py_find s CHR ''{'' < py_rfind s CHR ''}'' + 1"
  using region_found region_split unfolding has_region_def by blast

lemma canonical_region:
  assumes "CHR ''{'' \<notin> set pre" and "CHR ''}'' \<notin> set post"
  shows "py_find (pre @ ''{'' @ mid @ ''}'' @ post) CHR ''{'' = int (length pre)"
    and "py_rfind (pre @ ''{'' @ mid @ ''}'' @ post) CHR ''}'' = int (length pre + length mid + 1)"
proof -
  show "py_find (pre @ ''{'' @ mid @ ''}'' @ post) CHR ''{'' = int (length pre)"
    using py_find_first [OF assms(1)] by simp
  have "py_rfind ((pre @ ''{'' @ mid) @ CHR ''}'' # post) CHR ''}'' = int (length (pre @ ''{'' @ mid))"
    by (rule py_rfind_last [OF assms(2)])
  then show "py_rfind (pre @ ''{'' @ mid @ ''}'' @ post) CHR ''}'' = int (length pre + length mid + 1)"
    by simp
qed


lemma fallback_caught_again:
  "(case (case r of Inl e \<Rightarrow> Inl (Raised e) | Inr p \<Rightarrow> Inr p) of Inl e \<Rightarrow> r | Inr p \<Rightarrow> Inr p) = r"
  by (cases r) simp_all

lemma generate_with_ollama_requests:
  "snd (generate_with_ollama loads server now n goal) = n + 1"
  by (simp add: generate_with_ollama_def Let_def)

lemma generate_with_ollama_no_text:
  assumes "server n = ConnectionError \<or> server n = Response 200 None \<or>
           (\<exists>status body. server n = Response status body \<and> status \<noteq> 200)"
  shows "fst (generate_with_ollama loads server now n goal) = fallback_result now goal"
  using assms by (auto simp: generate_with_ollama_def Let_def fallback_caught_again)

lemma generate_with_ollama_no_region:
  assumes "server n = Response 200 (Some text)" and "\<not> has_region text"
  shows "fst (generate_with_ollama loads server now n goal) = fallback_result now goal"
proof -
  have "\<not> (0 \<le> py_find text CHR ''{'' \<and> py_find text CHR ''{'' < py_rfind text CHR ''}'' + 1)"
    using assms(2) unfolding has_region_iff .
  then show ?thesis
    using assms(1) by (auto simp: generate_with_ollama_def Let_def fallback_caught_again)
qed

lemma generate_with_ollama_region:
  assumes "server n = Response 200 (Some (pre @ ''{'' @ mid @ ''}'' @ post))"
    and "CHR ''{'' \<notin> set pre" and "CHR ''}'' \<notin> set post"
  shows "fst (generate_with_ollama loads server now n goal) =
           (case loads (''{'' @ mid @ ''}'') of
              Some plan \<Rightarrow> Inr (LLMPlan plan)
            | None \<Rightarrow> fallback_result now goal)"
proof -
  let ?text = "pre @ ''{'' @ mid @ ''}'' @ post"
  note c = canonical_region [OF assms(2,3), of mid]
  have "slice ?text (py_find ?text CHR ''{'') (py_rfind ?text CHR ''}'' + 1) = ''{'' @ mid @ ''}''"
    unfolding c by (rule slice_region)
  moreover have "0 \<le> py_find ?text CHR ''{'' \<and> py_find ?text CHR ''{'' < py_rfind ?text CHR ''}'' + 1"
    unfolding c by simp
  ultimately show ?thesis
    using assms(1)
    by (simp add: generate_with_ollama_def Let_def fallback_caught_again split: option.splits)
qed

lemma fallback_result_not_llm: "fallback_result now goal \<noteq> Inr (LLMPlan plan)"
  by (cases "fallback_plan_generation now goal") (simp_all add: fallback_result_def)

text \<open>
  C8. Whatever the one request to the LLM server comes to, \<^verbatim>\<open>generate_with_ollama\<close> makes
  exactly that one request, and it returns what the rule-based generator returns for the
  same goal when the request fails (no connection, the timeout, an unreadable body), when
  the status is not 200, when the answer has no \<^verbatim>\<open>{\<close> followed later by a \<^verbatim>\<open>}\<close>, and when
  the text from the first \<^verbatim>\<open>{\<close> to the last \<^verbatim>\<open>}\<close> does not parse. When that text parses, the
  parsed object is returned as it is; this is the only case in which the result is not
  the rule-based one.
\<close>

theorem llm_failure_falls_back:
  fixes loads :: "string \<Rightarrow> 'j option"
  shows
  "snd (generate_with_ollama loads server now n goal) = n + 1 \<and>
   (server n = ConnectionError \<longrightarrow>
      fst (generate_with_ollama loads server now n goal) = fallback_result now goal) \<and>
   (\<forall>status body. server n = Response status body \<and> status \<noteq> 200 \<longrightarrow>
      fst (generate_with_ollama loads server now n goal) = fallback_result now goal) \<and>
   (server n = Response 200 None \<longrightarrow>
      fst (generate_with_ollama loads server now n goal) = fallback_result now goal) \<and>
   (\<forall>text. server n = Response 200 (Some text) \<and> \<not> has_region text \<longrightarrow>
      fst (generate_with_ollama loads server now n goal) = fallback_result now goal) \<and>
   (\<forall>pre mid post. server n = Response 200 (Some (pre @ ''{'' @ mid @ ''}'' @ post)) \<and>
      CHR ''{'' \<notin> set pre \<and> CHR ''}'' \<notin> set post \<and> loads (''{'' @ mid @ ''}'') = None \<longrightarrow>
      fst (generate_with_ollama loads server now n goal) = fallback_result now goal) \<and>
   (\<forall>pre mid post plan. server n = Response 200 (Some (pre @ ''{'' @ mid @ ''}'' @ post)) \<and>
      CHR ''{'' \<notin> set pre \<and> CHR ''}'' \<notin> set post \<and> loads (''{'' @ mid @ ''}'') = Some plan \<longrightarrow>
      fst (generate_with_ollama loads server now n goal) = Inr (LLMPlan plan)) \<and>
   (\<forall>text. has_region text \<longrightarrow>
      (\<exists>pre mid post. text = pre @ ''{'' @ mid @ ''}'' @ post \<and>
         CHR ''{'' \<notin> set pre \<and> CHR ''}'' \<notin> set post)) \<and>
   (\<forall>plan. fallback_result now goal \<noteq> (Inr (LLMPlan plan) :: py_error + 'j plan_result))"
proof (intro conjI allI impI)
  show "snd (generate_with_ollama loads server now n goal) = n + 1"
    by (rule generate_with_ollama_requests)
next
  assume "server n = ConnectionError"
  then show "fst (generate_with_ollama loads server now n goal) = fallback_result now goal"
    by (simp add: generate_with_ollama_no_text)
next
  fix status body
  assume "server n = Response status body \<and> status \<noteq> 200"
  then show "fst (generate_with_ollama loads server now n goal) = fallback_result now goal"
    by (intro generate_with_ollama_no_text) blast
next
  assume "server n = Response 200 None"
  then show "fst (generate_with_ollama loads server now n goal) = fallback_result now goal"
    by (simp add: generate_with_ollama_no_text)
next
  fix answer
  assume "server n = Response 200 (Some answer) \<and> \<not> has_region answer"
  then show "fst (generate_with_ollama loads server now n goal) = fallback_result now goal"
    using generate_with_ollama_no_region by blast
next
  fix pre mid post
  assume "server n = Response 200 (Some (pre @ ''{'' @ mid @ ''}'' @ post)) \<and>
      CHR ''{'' \<notin> set pre \<and> CHR ''}'' \<notin> set post \<and> loads (''{'' @ mid @ ''}'') = None"
  then show "fst (generate_with_ollama loads server now n goal) = fallback_result now goal"
    using generate_with_ollama_region [of server n pre mid post loads now goal] by simp
next
  fix pre mid post plan
  assume "server n = Response 200 (Some (pre @ ''{'' @ mid @ ''}'' @ post)) \<and>
      CHR ''{'' \<notin> set pre \<and> CHR ''}'' \<notin> set post \<and> loads (''{'' @ mid @ ''}'') = Some plan"
  then show "fst (generate_with_ollama loads server now n goal) = Inr (LLMPlan plan)"
    using generate_with_ollama_region [of server n pre mid post loads now goal] by simp
next
  fix answer
  assume "has_region answer"
  then show "\<exists>pre mid post. answer = pre @ ''{'' @ mid @ ''}'' @ post \<and>
         CHR ''{'' \<notin> set pre \<and> CHR ''}'' \<notin> set post"
    using region_split has_region_iff by blast
next
  fix plan :: 'j
  show "fallback_result now goal \<noteq> Inr (LLMPlan plan)" by (rule fallback_result_not_llm)
qed

lemma no_region_example: "\<not> has_region ''I cannot help with that.''"
  unfolding has_region_iff by code_simp

lemma region_example:
  "''Here you go: {} Good luck!'' = ''Here you go: '' @ ''{'' @ [] @ ''}'' @ '' Good luck!''"
  "CHR ''{'' \<notin> set ''Here you go: ''" "CHR ''}'' \<notin> set '' Good luck!''"
  by simp_all

theorem llm_failure_falls_back_witness:
  "fst (generate_with_ollama (\<lambda>s. Some (length s)) (\<lambda>k. ConnectionError) 739925 0 ''plan a trip'')
     = fallback_result 739925 ''plan a trip'' \<and>
   fst (generate_with_ollama (\<lambda>s. Some (length s)) (\<lambda>k. Response 503 None) 739925 0 ''plan a trip'')
     = fallback_result 739925 ''plan a trip'' \<and>
   fst (generate_with_ollama (\<lambda>s. Some (length s)) (\<lambda>k. Response 200 None) 739925 0 ''plan a trip'')
     = fallback_result 739925 ''plan a trip'' \<and>
   \<not> has_region ''I cannot help with that.'' \<and>
   fst (generate_with_ollama (\<lambda>s. Some (length s))
          (\<lambda>k. Response 200 (Some ''I cannot help with that.'')) 739925 0 ''plan a trip'')
     = fallback_result 739925 ''plan a trip'' \<and>
   fst (generate_with_ollama (\<lambda>s. None :: nat option)
          (\<lambda>k. Response 200 (Some ''Here you go: {} Good luck!'')) 739925 0 ''plan a trip'')
     = fallback_result 739925 ''plan a trip'' \<and>
   fst (generate_with_ollama (\<lambda>s. Some (length s))
          (\<lambda>k. Response 200 (Some ''Here you go: {} Good luck!'')) 739925 0 ''plan a trip'')
     = Inr (LLMPlan 2) \<and>
   snd (generate_with_ollama (\<lambda>s. Some (length s))
          (\<lambda>k. Response 200 (Some ''Here you go: {} Good luck!'')) 739925 0 ''plan a trip'') = 1"
proof -
  note a = llm_failure_falls_back
    [of "\<lambda>s. Some (length s)" "\<lambda>k. ConnectionError" 739925 0 "''plan a trip''"]
  note b = llm_failure_falls_back
    [of "\<lambda>s. Some (length s)" "\<lambda>k. Response 503 None" 739925 0 "''plan a trip''"]
  note c = llm_failure_falls_back
    [of "\<lambda>s. Some (length s)" "\<lambda>k. Response 200 None" 739925 0 "''plan a trip''"]
  note d = llm_failure_falls_back
    [of "\<lambda>s. Some (length s)" "\<lambda>k. Response 200 (Some ''I cannot help with that.'')"
       739925 0 "''plan a trip''"]
  note e = llm_failure_falls_back
    [of "\<lambda>s. None :: nat option" "\<lambda>k. Response 200 (Some ''Here you go: {} Good luck!'')"
       739925 0 "''plan a trip''"]
  note f = llm_failure_falls_back
    [of "\<lambda>s. Some (length s)" "\<lambda>k. Response 200 (Some ''Here you go: {} Good luck!'')"
       739925 0 "''plan a trip''"]
  have 1: "fst (generate_with_ollama (\<lambda>s. Some (length s)) (\<lambda>k. ConnectionError) 739925 0 ''plan a trip'')
     = fallback_result 739925 ''plan a trip''"
    by (rule a [THEN conjunct2, THEN conjunct1, rule_format]) simp
  have 2: "fst (generate_with_ollama (\<lambda>s. Some (length s)) (\<lambda>k. Response 503 None) 739925 0 ''plan a trip'')
     = fallback_result 739925 ''plan a trip''"
    by (rule b [THEN conjunct2, THEN conjunct2, THEN conjunct1, rule_format, of 503 None]) simp
  have 3: "fst (generate_with_ollama (\<lambda>s. Some (length s)) (\<lambda>k. Response 200 None) 739925 0 ''plan a trip'')
     = fallback_result 739925 ''plan a trip''"
    by (rule c [THEN conjunct2, THEN conjunct2, THEN conjunct2, THEN conjunct1, rule_format]) simp
  have 4: "fst (generate_with_ollama (\<lambda>s. Some (length s))
          (\<lambda>k. Response 200 (Some ''I cannot help with that.'')) 739925 0 ''plan a trip'')
     = fallback_result 739925 ''plan a trip''"
    by (rule d [THEN conjunct2, THEN conjunct2, THEN conjunct2, THEN conjunct2, THEN conjunct1,
          rule_format, of "''I cannot help with that.''"])
       (simp add: no_region_example)
  have 5: "fst (generate_with_ollama (\<lambda>s. None :: nat option)
          (\<lambda>k. Response 200 (Some ''Here you go: {} Good luck!'')) 739925 0 ''plan a trip'')
     = fallback_result 739925 ''plan a trip''"
    by (rule e [THEN conjunct2, THEN conjunct2, THEN conjunct2, THEN conjunct2, THEN conjunct2,
          THEN conjunct1, rule_format, of "''Here you go: ''" "[]" "'' Good luck!''"])
       simp
  have 6: "fst (generate_with_ollama (\<lambda>s. Some (length s))
          (\<lambda>k. Response 200 (Some ''Here you go: {} Good luck!'')) 739925 0 ''plan a trip'')
     = Inr (LLMPlan 2)"
    by (rule f [THEN conjunct2, THEN conjunct2, THEN conjunct2, THEN conjunct2, THEN conjunct2,
          THEN conjunct2, THEN conjunct1, rule_format, of "''Here you go: ''" "[]" "'' Good luck!''" 2])
       simp
  have 7: "snd (generate_with_ollama (\<lambda>s. Some (length s))
          (\<lambda>k. Response 200 (Some ''Here you go: {} Good luck!'')) 739925 0 ''plan a trip'') = 1"
    using f [THEN conjunct1] by simp
  show ?thesis by (intro conjI 1 2 3 4 5 6 7 no_region_example)
qed

section \<open>Blank goals are rejected\<close>

lemma strip_blank:
  assumes "\<forall>c\<in>set s. is_space c"
  shows "strip s = []"
proof -
  have d: "dropWhile is_space s = []" using assms by simp
  show ?thesis unfolding strip_def d by simp
qed

lemma strip_empty_iff: "strip s = [] \<longleftrightarrow> (\<forall>c\<in>set s. is_space c)"
proof
  assume "strip s = []"
  then have a: "\<forall>c\<in>set (dropWhile is_space s). is_space c"
    by (simp add: strip_def)
  have "dropWhile is_space s = []"
  proof (rule ccontr)
    assume n: "dropWhile is_space s \<noteq> []"
    then have "\<not> is_space (hd (dropWhile is_space s))" by (rule hd_dropWhile)
    moreover have "hd (dropWhile is_space s) \<in> set (dropWhile is_space s)"
      using n by (rule hd_in_set)
    ultimately show False using a by blast
  qed
  then show "\<forall>c\<in>set s. is_space c" by simp
next
  assume "\<forall>c\<in>set s. is_space c"
  then show "strip s = []" by (rule strip_blank)
qed

text \<open>
  C9. A request whose goal is missing, empty or nothing but white space is answered with
  the error \<^verbatim>\<open>Goal is required\<close> (status 400). The planner is left as it was: nothing is
  written to the table of plans, no request goes to the LLM server, and no plan is made.
\<close>

theorem blank_goal_is_rejected:
  assumes "entry = Absent \<or> (\<exists>s. entry = Text s \<and> (\<forall>c\<in>set s. is_space c))"
  shows "create_plan loads server now st (Object entry) = (BadRequest ''Goal is required'', st)"
proof -
  have "strip (case entry of Text s \<Rightarrow> s | _ \<Rightarrow> []) = []"
    using assms by (auto simp: strip_blank)
  moreover have "entry \<noteq> NotText" using assms by auto
  ultimately show ?thesis
    by (cases entry) (simp_all add: create_plan_def)
qed

theorem blank_goal_is_rejected_witness:
  "list_all is_space ''  '' \<and>
   create_plan (\<lambda>s. None :: unit option) (\<lambda>n. ConnectionError) 739925
      \<lparr>llm_method = ''fallback'', task_plans = [], requests = 0\<rparr> (Object (Text ''  ''))
    = (BadRequest ''Goal is required'', \<lparr>llm_method = ''fallback'', task_plans = [], requests = 0\<rparr>) \<and>
   create_plan (\<lambda>s. None :: unit option) (\<lambda>n. ConnectionError) 739925
      \<lparr>llm_method = ''ollama'', task_plans = [], requests = 0\<rparr> (Object Absent)
    = (BadRequest ''Goal is required'', \<lparr>llm_method = ''ollama'', task_plans = [], requests = 0\<rparr>)"
proof -
  have s: "list_all is_space ''  ''" by (simp add: is_space_def)
  then have "Text ''  '' = Absent \<or> (\<exists>s. Text ''  '' = Text s \<and> (\<forall>c\<in>set s. is_space c))"
    by (simp add: list_all_iff)
  note a = blank_goal_is_rejected [OF this]
  have "Absent = Absent \<or> (\<exists>s. Absent = Text s \<and> (\<forall>c\<in>set s. is_space c))" by simp
  note b = blank_goal_is_rejected [OF this]
  show ?thesis by (intro conjI s a b)
qed

end
